theory Spec2Isabelle
  imports Complex_Main "HOL-Library.Multiset"
begin

section \<open>JavaScript values used by the library\<close>

text \<open>
  Every exception the modelled code can raise is a \<open>TypeError\<close>: calling \<open>undefined\<close> or
  \<open>null\<close> as a function, or reading a property of \<open>undefined\<close>.
\<close>

datatype error = TypeError

text \<open>
  JavaScript numbers: the finite values (every finite double is a rational; \<open>-0\<close> and
  \<open>0\<close> compare equal under every operator used here and are identified), the two
  infinities and \<open>NaN\<close>.
\<close>

datatype number = Fin rat | PosInf | NegInf | NaN

text \<open>A table cell or a rule's \<open>val\<close>: a scalar, or \<open>undefined\<close> (an absent field).\<close>

datatype cell = Undefined | Str string | Num number | Bool bool

type_synonym table_row = "cell list"
type_synonym table = "table_row list"

text \<open>The comparison operators on numbers, as the six \<open>equalityStrategies\<close> use them.\<close>

fun number_eq :: "number \<Rightarrow> number \<Rightarrow> bool" where
  "number_eq NaN b = False"
| "number_eq a NaN = False"
| "number_eq a b = (a = b)"

fun number_lt :: "number \<Rightarrow> number \<Rightarrow> bool" where
  "number_lt (Fin x) (Fin y) = (x < y)"
| "number_lt (Fin x) PosInf = True"
| "number_lt NegInf (Fin y) = True"
| "number_lt NegInf PosInf = True"
| "number_lt a b = False"

definition number_le :: "number \<Rightarrow> number \<Rightarrow> bool" where
  "number_le a b = (number_lt a b \<or> number_eq a b)"

text \<open>\<open>===\<close> on scalars: no coercion, and \<open>NaN\<close> differs from itself.\<close>

fun strict_eq :: "cell \<Rightarrow> cell \<Rightarrow> bool" where
  "strict_eq (Num a) (Num b) = number_eq a b"
| "strict_eq a b = (a = b)"

text \<open>
  \<open>Array.prototype.indexOf\<close>: the position of the first element equal to the target
  under the given equality, \<open>-1\<close> when there is none.
\<close>

fun indexOfFrom :: "('a \<Rightarrow> 'a \<Rightarrow> bool) \<Rightarrow> 'a list \<Rightarrow> 'a \<Rightarrow> int \<Rightarrow> int" where
  "indexOfFrom eq [] x i = - 1"
| "indexOfFrom eq (y # ys) x i = (if eq y x then i else indexOfFrom eq ys x (i + 1))"

definition indexOf :: "('a \<Rightarrow> 'a \<Rightarrow> bool) \<Rightarrow> 'a list \<Rightarrow> 'a \<Rightarrow> int" where
  "indexOf eq xs x = indexOfFrom eq xs x 0"

section \<open>The rule combiner (refine\_util.RuleCombiner)\<close>

record RuleCombiner =
  combineWithAnd :: bool
  clauseResults :: "bool list"

definition newRuleCombiner :: "bool \<Rightarrow> RuleCombiner" where
  "newRuleCombiner cwa = \<lparr>combineWithAnd = cwa, clauseResults = []\<rparr>"

definition reportShouldKeep :: "RuleCombiner \<Rightarrow> bool \<Rightarrow> RuleCombiner" where
  "reportShouldKeep c clauseResult = c\<lparr>clauseResults := clauseResults c @ [clauseResult]\<rparr>"

definition shouldKeep :: "RuleCombiner \<Rightarrow> bool" where
  "shouldKeep c =
     (if combineWithAnd c then indexOf (=) (clauseResults c) False = - 1
      else (let allClausesFailed = (indexOf (=) (clauseResults c) True = - 1)
            in \<not> allClausesFailed))"

section \<open>Rules\<close>

text \<open>
  A rule is a plain object whose fields may each be absent. \<open>index\<close> is an array, or a
  scalar (a string is an equality expression, \<open>undefined\<close> means the field is absent);
  \<open>col\<close> and \<open>row\<close> are absent, the string \<open>'any'\<close>, an array of indices or one index
  (indices are array positions, modelled as naturals); \<open>val\<close> is a scalar; \<open>allOf\<close> is a
  nested rule list.
\<close>

datatype index_input = IndexArray "cell list" | IndexScalar cell

datatype indices_input = InputUndefined | InputAny | InputArray "nat list" | InputIndex nat

datatype index_list = ANY_OPT | Indices "nat list"

datatype rule =
  Rule (index: index_input) (col: indices_input) (row: indices_input) (val: cell)
    (allOf: "rule list option")

text \<open>Object literals with one kind of field each, for readable examples.\<close>

definition indexRule :: "index_input \<Rightarrow> rule" where
  "indexRule i = Rule i InputUndefined InputUndefined Undefined None"

definition colValRule :: "indices_input \<Rightarrow> cell \<Rightarrow> rule" where
  "colValRule c v = Rule (IndexScalar Undefined) c InputUndefined v None"

definition rowValRule :: "indices_input \<Rightarrow> cell \<Rightarrow> rule" where
  "rowValRule r v = Rule (IndexScalar Undefined) InputUndefined r v None"

definition allOfRule :: "rule list \<Rightarrow> rule" where
  "allOfRule rs = Rule (IndexScalar Undefined) InputUndefined InputUndefined Undefined (Some rs)"

section \<open>refine\_util: equality expressions, selectors, the index checker\<close>

text \<open>
  \<open>equalityStrategies\<close> is keyed by two-character operators (\<open>>\<close> and \<open><\<close> are followed by
  a space). Each strategy takes the parsed value and returns the closure over the
  operand \<open>op\<close>, which stands on the left of the comparison.
\<close>

definition equalityStrategies :: "string \<Rightarrow> (number \<Rightarrow> number \<Rightarrow> bool) option" where
  "equalityStrategies operator =
     (if operator = ''=='' then Some (\<lambda>value op. number_eq op value)
      else if operator = ''> '' then Some (\<lambda>value op. number_lt value op)
      else if operator = ''>='' then Some (\<lambda>value op. number_le value op)
      else if operator = ''< '' then Some (\<lambda>value op. number_lt op value)
      else if operator = ''<='' then Some (\<lambda>value op. number_le op value)
      else if operator = ''!='' then Some (\<lambda>value op. \<not> number_eq op value)
      else None)"

text \<open>
  \<open>createEqualityEvaluator\<close>. The built-in \<open>Number\<close> conversion of a string is a
  parameter. A string shorter than three characters gives \<open>null\<close> (\<open>None\<close>). For an
  operator that is no key of the table, \<open>equalityStrategies[operator]\<close> is \<open>undefined\<close>
  and calling it raises a TypeError, before the test \<open>strategy === undefined\<close> is reached;
  that test never succeeds, since a strategy returns a closure.
\<close>

definition createEqualityEvaluator ::
  "(string \<Rightarrow> number) \<Rightarrow> string \<Rightarrow> error + (number \<Rightarrow> bool) option" where
  "createEqualityEvaluator Number inequality =
     (if length inequality < 3 then Inr None
      else
        let operator = take 2 inequality;
            value = Number (drop 2 inequality)
        in case equalityStrategies operator of
             None \<Rightarrow> Inl TypeError
           | Some strategy \<Rightarrow> Inr (Some (strategy value)))"

definition prepareListOfIndices :: "indices_input \<Rightarrow> index_list" where
  "prepareListOfIndices input =
     (case input of
        InputUndefined \<Rightarrow> ANY_OPT
      | InputAny \<Rightarrow> ANY_OPT
      | InputArray is \<Rightarrow> Indices is
      | InputIndex i \<Rightarrow> Indices [i])"

text \<open>
  The callback of \<open>ignoreRowRules.map\<close> in \<open>createKeepIndexChecker\<close>, threading the two
  arrays it pushes to: \<open>ignoreRows\<close> and \<open>ignoreRowEvaluators\<close>.
\<close>

fun ignoreRowsByRule ::
  "(string \<Rightarrow> number) \<Rightarrow> rule list \<Rightarrow> cell list \<Rightarrow> (number \<Rightarrow> bool) option list \<Rightarrow>
   error + (cell list \<times> (number \<Rightarrow> bool) option list)" where
  "ignoreRowsByRule Number [] ignoreRows ignoreRowEvaluators =
     Inr (ignoreRows, ignoreRowEvaluators)"
| "ignoreRowsByRule Number (e # es) ignoreRows ignoreRowEvaluators =
     (case index e of
        IndexArray is \<Rightarrow> ignoreRowsByRule Number es (ignoreRows @ is) ignoreRowEvaluators
      | IndexScalar (Str s) \<Rightarrow>
          (case createEqualityEvaluator Number s of
             Inl err \<Rightarrow> Inl err
           | Inr ev \<Rightarrow> ignoreRowsByRule Number es ignoreRows (ignoreRowEvaluators @ [ev]))
      | IndexScalar i \<Rightarrow> ignoreRowsByRule Number es (ignoreRows @ [i]) ignoreRowEvaluators)"

text \<open>
  The loop over the evaluators inside the returned checker. Calling a \<open>null\<close> evaluator
  raises a TypeError. The loop does not stop at the first failing evaluator.
\<close>

fun runEvaluators :: "(number \<Rightarrow> bool) option list \<Rightarrow> number \<Rightarrow> bool \<Rightarrow> error + bool" where
  "runEvaluators [] rowIndex passesEqualityTests = Inr passesEqualityTests"
| "runEvaluators (None # evs) rowIndex passesEqualityTests = Inl TypeError"
| "runEvaluators (Some ev # evs) rowIndex passesEqualityTests =
     runEvaluators evs rowIndex (if \<not> ev rowIndex then False else passesEqualityTests)"

text \<open>
  \<open>createKeepIndexChecker\<close>. The checker is applied to loop counters only, on which
  \<open>parseInt(rowIndex, 10)\<close> is the identity.
\<close>

definition createKeepIndexChecker ::
  "(string \<Rightarrow> number) \<Rightarrow> rule list \<Rightarrow> error + (nat \<Rightarrow> error + bool)" where
  "createKeepIndexChecker Number rules =
     (let ignoreRowRules = filter (\<lambda>e. index e \<noteq> IndexScalar Undefined) rules
      in case ignoreRowsByRule Number ignoreRowRules [] [] of
           Inl err \<Rightarrow> Inl err
         | Inr (ignoreRows, ignoreRowEvaluators) \<Rightarrow>
             if length ignoreRowRules = 0 then Inr (\<lambda>rowIndex. Inr True)
             else Inr (\<lambda>rowIndex.
               let rowIndex' = Fin (of_nat rowIndex);
                   ignoreByIndex = (indexOf strict_eq ignoreRows (Num rowIndex') \<noteq> - 1);
                   numEvaluators = length ignoreRowEvaluators
               in case runEvaluators ignoreRowEvaluators rowIndex' True of
                    Inl err \<Rightarrow> Inl err
                  | Inr passesEqualityTests \<Rightarrow>
                      Inr (\<not> ignoreByIndex \<and> (numEvaluators = 0 \<or> \<not> passesEqualityTests))))"

text \<open>
  An instance of the \<open>Number\<close> parameter for closed examples: it agrees with JavaScript's
  \<open>Number\<close> on the strings of decimal digits (the empty string converts to 0) and on
  the string \<open>abc\<close>, which converts to \<open>NaN\<close>; the examples apply it to such strings
  only. It is not \<open>Number\<close> elsewhere: signed, fractional, padded and exponent literals
  convert to numbers in JavaScript, and values beyond \<open>2^53\<close> are rounded there.
\<close>

definition isDigit :: "char \<Rightarrow> bool" where
  "isDigit c = (48 \<le> (of_char c :: nat) \<and> (of_char c :: nat) \<le> 57)"

definition decimalNumber :: "string \<Rightarrow> number" where
  "decimalNumber s =
     (if list_all isDigit s
      then Fin (of_nat (foldl (\<lambda>acc c. 10 * acc + (of_char c - 48)) (0::nat) s))
      else NaN)"

section \<open>row\_filter\<close>

text \<open>The two loops of the closures built by \<open>createKeepRowValFuncs\<close>.\<close>

fun scanAllColumns :: "table_row \<Rightarrow> cell \<Rightarrow> nat list \<Rightarrow> bool" where
  "scanAllColumns row' targetVal [] = True"
| "scanAllColumns row' targetVal (column # columns) =
     (if strict_eq (row' ! column) targetVal then False
      else scanAllColumns row' targetVal columns)"

fun scanTargetCols :: "table_row \<Rightarrow> cell \<Rightarrow> nat list \<Rightarrow> bool" where
  "scanTargetCols row' targetVal [] = True"
| "scanTargetCols row' targetVal (currentCol # targetCols) =
     (let hasCol = (length row' > currentCol)
      in if hasCol \<and> strict_eq (row' ! currentCol) targetVal then False
         else scanTargetCols row' targetVal targetCols)"

definition createKeepRowValFuncs :: "rule list \<Rightarrow> (table_row \<Rightarrow> nat \<Rightarrow> bool) list" where
  "createKeepRowValFuncs ignoreValueRules =
     map (\<lambda>rule.
       let targetCol = col rule;
           targetVal = val rule;
           targetCols = prepareListOfIndices targetCol
       in case targetCols of
            ANY_OPT \<Rightarrow> (\<lambda>row' rowIndex. scanAllColumns row' targetVal [0..<length row'])
          | Indices cs \<Rightarrow> (\<lambda>row' rowIndex. scanTargetCols row' targetVal cs))
     ignoreValueRules"

type_synonym keep_func = "table_row \<Rightarrow> nat \<Rightarrow> error + bool"

text \<open>An exception raised while an array is mapped leaves the map at that element.\<close>

fun sequenceResults :: "(error + 'a) list \<Rightarrow> error + 'a list" where
  "sequenceResults [] = Inr []"
| "sequenceResults (r # rs) =
     (case r of
        Inl err \<Rightarrow> Inl err
      | Inr x \<Rightarrow> (case sequenceResults rs of Inl err \<Rightarrow> Inl err | Inr xs \<Rightarrow> Inr (x # xs)))"

text \<open>The loop that reports the result of every function to the combiner.\<close>

fun reportAll :: "keep_func list \<Rightarrow> table_row \<Rightarrow> nat \<Rightarrow> RuleCombiner \<Rightarrow> error + RuleCombiner" where
  "reportAll [] row' rowIndex ruleCombiner = Inr ruleCombiner"
| "reportAll (targetFunc # targetFuncs) row' rowIndex ruleCombiner =
     (case targetFunc row' rowIndex of
        Inl err \<Rightarrow> Inl err
      | Inr clauseResult \<Rightarrow>
          reportAll targetFuncs row' rowIndex (reportShouldKeep ruleCombiner clauseResult))"

text \<open>
  \<open>createRowKeepFunc\<close>. The value functions never raise; the functions of the nested
  groups and the index checker may. The two \<open>console.log\<close> calls of the third branch
  write to the console only and are left out.
\<close>

function createRowKeepFunc :: "(string \<Rightarrow> number) \<Rightarrow> rule list \<Rightarrow> bool \<Rightarrow> error + keep_func" where
  "createRowKeepFunc Number rules combinedWithAnd =
     (let ignoreRowRules = filter (\<lambda>e. index e \<noteq> IndexScalar Undefined) rules;
          hasIgnoreRules = (length ignoreRowRules > 0)
      in case createKeepIndexChecker Number rules of
           Inl err \<Rightarrow> Inl err
         | Inr shouldKeepIndex \<Rightarrow>
             let ignoreValueRules = filter (\<lambda>e. val e \<noteq> Undefined) rules;
                 shouldKeepValueFuncs = createKeepRowValFuncs ignoreValueRules;
                 ignoreCombinedValueRules = filter (\<lambda>e. allOf e \<noteq> None) rules
             in case sequenceResults
                       (map (\<lambda>rules'. createRowKeepFunc Number (the (allOf rules')) False)
                          ignoreCombinedValueRules) of
                  Inl err \<Rightarrow> Inl err
                | Inr shouldKeepCombinedFuncs \<Rightarrow>
                    let shouldKeepFuncs =
                          map (\<lambda>f row' rowIndex. Inr (f row' rowIndex)) shouldKeepValueFuncs
                          @ shouldKeepCombinedFuncs;
                        numShouldKeepFuncs = length shouldKeepFuncs
                    in if \<not> hasIgnoreRules then
                         Inr (\<lambda>row' rowIndex.
                           case reportAll shouldKeepFuncs row' rowIndex
                                  (newRuleCombiner combinedWithAnd) of
                             Inl err \<Rightarrow> Inl err
                           | Inr ruleCombiner \<Rightarrow> Inr (shouldKeep ruleCombiner))
                       else if hasIgnoreRules \<and> length shouldKeepFuncs = 0 then
                         Inr (\<lambda>row' rowIndex. shouldKeepIndex rowIndex)
                       else
                         Inr (\<lambda>row' rowIndex.
                           case shouldKeepIndex rowIndex of
                             Inl err \<Rightarrow> Inl err
                           | Inr indexResult \<Rightarrow>
                               (case reportAll shouldKeepFuncs row' rowIndex
                                       (reportShouldKeep (newRuleCombiner combinedWithAnd)
                                          indexResult) of
                                  Inl err \<Rightarrow> Inl err
                                | Inr ruleCombiner \<Rightarrow> Inr (shouldKeep ruleCombiner))))"
  by pat_completeness auto

lemma allOf_size:
  assumes "x \<in> set rules" and "allOf x = Some rs"
  shows "size_list size rs < size_list size rules"
proof -
  have "size_list size rs < size x"
    using assms(2) by (cases x) simp
  moreover have "size x \<le> size_list size rules"
    using assms(1) by (rule size_list_estimation') simp
  ultimately show ?thesis
    by simp
qed

termination createRowKeepFunc
proof (relation "measure (\<lambda>(Number, rules, combinedWithAnd). size_list size rules)")
  show "wf (measure (\<lambda>(Number, rules, combinedWithAnd). size_list size rules))"
    by simp
next
  fix Number :: "string \<Rightarrow> number" and rules :: "rule list" and combinedWithAnd :: bool
    and xd :: "rule list" and xe :: rule
  assume "xd = filter (\<lambda>e. allOf e \<noteq> None) rules" and "xe \<in> set xd"
  then have "xe \<in> set rules" and "allOf xe = Some (the (allOf xe))"
    by auto
  then have "size_list size (the (allOf xe)) < size_list size rules"
    by (rule allOf_size)
  then show "((Number, the (allOf xe), False), Number, rules, combinedWithAnd)
      \<in> measure (\<lambda>(Number, rules, combinedWithAnd). size_list size rules)"
    by simp
qed

declare createRowKeepFunc.simps [simp del]

text \<open>
  The loop of \<open>ignoreRowIf\<close> over the rows, with the running row index; the result is
  the array \<open>retVal\<close> of the rows pushed.
\<close>

fun keepRows :: "keep_func \<Rightarrow> table \<Rightarrow> nat \<Rightarrow> error + table" where
  "keepRows shouldKeepFunc [] rowIndex = Inr []"
| "keepRows shouldKeepFunc (targetRow # targetRows) rowIndex =
     (case shouldKeepFunc targetRow rowIndex of
        Inl err \<Rightarrow> Inl err
      | Inr keep \<Rightarrow>
          (case keepRows shouldKeepFunc targetRows (rowIndex + 1) of
             Inl err \<Rightarrow> Inl err
           | Inr retVal \<Rightarrow> Inr (if keep then targetRow # retVal else retVal)))"

definition ignoreRowIf :: "(string \<Rightarrow> number) \<Rightarrow> table \<Rightarrow> rule list \<Rightarrow> error + table" where
  "ignoreRowIf Number targetRows params =
     (case createRowKeepFunc Number params True of
        Inl err \<Rightarrow> Inl err
      | Inr shouldKeepFunc \<Rightarrow> keepRows shouldKeepFunc targetRows 0)"

text \<open>
  The votes a row receives from a rule list, in the order \<open>createRowKeepFunc\<close> reports
  them: the vote of the index checker when the list has a rule with an \<open>index\<close> field,
  the votes of the value functions, and the votes of the nested groups (each group built
  with \<open>combinedWithAnd = false\<close>). A vote is \<open>Inr True\<close> for keep, \<open>Inr False\<close> for
  remove, and \<open>Inl\<close> when building or calling the clause raises.
\<close>

definition rowDecision ::
  "(string \<Rightarrow> number) \<Rightarrow> rule list \<Rightarrow> bool \<Rightarrow> table_row \<Rightarrow> nat \<Rightarrow> error + bool" where
  "rowDecision Number rules combinedWithAnd row' rowIndex =
     (case createRowKeepFunc Number rules combinedWithAnd of
        Inl err \<Rightarrow> Inl err
      | Inr shouldKeepFunc \<Rightarrow> shouldKeepFunc row' rowIndex)"

definition indexVote :: "(string \<Rightarrow> number) \<Rightarrow> rule list \<Rightarrow> nat \<Rightarrow> error + bool" where
  "indexVote Number rules rowIndex =
     (case createKeepIndexChecker Number rules of
        Inl err \<Rightarrow> Inl err
      | Inr shouldKeepIndex \<Rightarrow> shouldKeepIndex rowIndex)"

definition indexVotes :: "(string \<Rightarrow> number) \<Rightarrow> rule list \<Rightarrow> nat \<Rightarrow> (error + bool) list" where
  "indexVotes Number rules rowIndex =
     (if filter (\<lambda>e. index e \<noteq> IndexScalar Undefined) rules = [] then []
      else [indexVote Number rules rowIndex])"

definition valueVotes :: "rule list \<Rightarrow> table_row \<Rightarrow> nat \<Rightarrow> (error + bool) list" where
  "valueVotes rules row' rowIndex =
     map (\<lambda>f. Inr (f row' rowIndex))
       (createKeepRowValFuncs (filter (\<lambda>e. val e \<noteq> Undefined) rules))"

definition groupVotes ::
  "(string \<Rightarrow> number) \<Rightarrow> rule list \<Rightarrow> table_row \<Rightarrow> nat \<Rightarrow> (error + bool) list" where
  "groupVotes Number rules row' rowIndex =
     map (\<lambda>g. rowDecision Number (the (allOf g)) False row' rowIndex)
       (filter (\<lambda>e. allOf e \<noteq> None) rules)"

definition clauseVotes ::
  "(string \<Rightarrow> number) \<Rightarrow> rule list \<Rightarrow> table_row \<Rightarrow> nat \<Rightarrow> (error + bool) list" where
  "clauseVotes Number rules row' rowIndex =
     indexVotes Number rules rowIndex @ valueVotes rules row' rowIndex
     @ groupVotes Number rules row' rowIndex"

text \<open>
  When a value rule matches a row, in the words of the specification: the value is found
  at one of the selected positions that exist in the row, where an absent \<open>col\<close> or
  \<open>'any'\<close> selects every position.
\<close>

definition selectedCols :: "rule \<Rightarrow> table_row \<Rightarrow> nat list" where
  "selectedCols r row' =
     (case prepareListOfIndices (col r) of
        ANY_OPT \<Rightarrow> [0..<length row']
      | Indices cs \<Rightarrow> cs)"

definition valueRuleMatches :: "rule \<Rightarrow> table_row \<Rightarrow> bool" where
  "valueRuleMatches r row' =
     list_ex (\<lambda>c. c < length row' \<and> strict_eq (row' ! c) (val r)) (selectedCols r row')"

text \<open>
  Rules whose equality expressions can be parsed, at every depth: a string \<open>index\<close> has
  at least three characters and starts with one of the six operators.
\<close>

fun wellFormedIndex :: "index_input \<Rightarrow> bool" where
  "wellFormedIndex (IndexScalar (Str s)) =
     (3 \<le> length s \<and> equalityStrategies (take 2 s) \<noteq> None)"
| "wellFormedIndex i = True"

fun wellFormedRule :: "rule \<Rightarrow> bool" where
  "wellFormedRule (Rule i c r v a) =
     (wellFormedIndex i \<and> (case a of None \<Rightarrow> True | Some rs \<Rightarrow> list_all wellFormedRule rs))"

section \<open>col\_filter\<close>

text \<open>
  \<open>checkRows\<close> of \<open>findColsByVal\<close>: the columns it pushes to \<open>matchedCols\<close>, row after
  row and column after column.
\<close>

definition checkRowsByVal :: "rule \<Rightarrow> table \<Rightarrow> nat list" where
  "checkRowsByVal currentRule targetRows =
     concat (map (\<lambda>targetRow.
       filter (\<lambda>colIndex. strict_eq (targetRow ! colIndex) (val currentRule))
         [0..<length targetRow]) targetRows)"

definition findColsByVal :: "rule list \<Rightarrow> table \<Rightarrow> nat list" where
  "findColsByVal valueIndexIgnoreRules targetRows =
     concat (map (\<lambda>currentRule.
       case prepareListOfIndices (row currentRule) of
         ANY_OPT \<Rightarrow> checkRowsByVal currentRule targetRows
       | Indices rowIndices \<Rightarrow>
           let numRows = length targetRows;
               rowIndices' = filter (\<lambda>i. i < numRows) rowIndices;
               ruleRows = map (\<lambda>i. targetRows ! i) rowIndices'
           in checkRowsByVal currentRule ruleRows) valueIndexIgnoreRules)"

text \<open>\<open>targetRows[i]\<close>: \<open>undefined\<close> (\<open>None\<close>) beyond the last row.\<close>

definition rowAt :: "table \<Rightarrow> nat \<Rightarrow> table_row option" where
  "rowAt targetRows i = (if i < length targetRows then Some (targetRows ! i) else None)"

text \<open>
  \<open>checkRows\<close> of \<open>findColsByCombinedVals\<close>: it returns at the first row that holds the
  value at the column; reading \<open>length\<close> of an \<open>undefined\<close> row raises a TypeError.
\<close>

fun checkRowsCombined :: "table_row option list \<Rightarrow> rule \<Rightarrow> nat \<Rightarrow> error + bool" where
  "checkRowsCombined [] subRule colIndex = Inr False"
| "checkRowsCombined (None # targetRows) subRule colIndex = Inl TypeError"
| "checkRowsCombined (Some targetRow # targetRows) subRule colIndex =
     (if length targetRow > colIndex \<and> strict_eq (targetRow ! colIndex) (val subRule)
      then Inr True
      else checkRowsCombined targetRows subRule colIndex)"

text \<open>
  The loop of \<open>runValueSearchRules\<close> over the sub-rules, with the flag \<open>matched\<close>; the
  column is pushed by the caller when the flag is still true at the end.
\<close>

fun runValueSearchRules :: "table \<Rightarrow> rule list \<Rightarrow> nat \<Rightarrow> bool \<Rightarrow> error + bool" where
  "runValueSearchRules targetRows [] colIndex matched = Inr matched"
| "runValueSearchRules targetRows (subRule # subRules) colIndex matched =
     (case prepareListOfIndices (row subRule) of
        ANY_OPT \<Rightarrow>
          (case checkRowsCombined (map Some targetRows) subRule colIndex of
             Inl err \<Rightarrow> Inl err
           | Inr found \<Rightarrow>
               runValueSearchRules targetRows subRules colIndex
                 (if \<not> found then False else matched))
      | Indices rowIndices \<Rightarrow>
          (let ruleRows = map (\<lambda>i. rowAt targetRows i) rowIndices
           in case checkRowsCombined ruleRows subRule colIndex of
                Inl err \<Rightarrow> Inl err
              | Inr found \<Rightarrow>
                  runValueSearchRules targetRows subRules colIndex
                    (if \<not> found then False else matched)))"

text \<open>
  The loop \<open>for (i = 0; i < numCols; i++) if (!indexChecker(i)) push(i)\<close>, which both
  \<open>findColsByCombinedVals\<close> and \<open>ignoreColIf\<close> run.
\<close>

fun colsNotKept :: "(nat \<Rightarrow> error + bool) \<Rightarrow> nat list \<Rightarrow> error + nat list" where
  "colsNotKept indexChecker [] = Inr []"
| "colsNotKept indexChecker (i # is) =
     (case indexChecker i of
        Inl err \<Rightarrow> Inl err
      | Inr keep \<Rightarrow>
          (case colsNotKept indexChecker is of
             Inl err \<Rightarrow> Inl err
           | Inr cols \<Rightarrow> Inr (if \<not> keep then i # cols else cols)))"

text \<open>The last loop of \<open>findColsByCombinedVals\<close>, over the columns.\<close>

fun examineCols ::
  "table \<Rightarrow> rule list \<Rightarrow> bool \<Rightarrow> nat list \<Rightarrow> nat list \<Rightarrow> error + nat list" where
  "examineCols targetRows valueSearchRules examineAllCols colsToExamine [] = Inr []"
| "examineCols targetRows valueSearchRules examineAllCols colsToExamine (colIndex # colIndices) =
     (if examineAllCols \<or> indexOf (=) colsToExamine colIndex \<noteq> - 1 then
        (case runValueSearchRules targetRows valueSearchRules colIndex True of
           Inl err \<Rightarrow> Inl err
         | Inr matched \<Rightarrow>
             (case examineCols targetRows valueSearchRules examineAllCols colsToExamine
                     colIndices of
                Inl err \<Rightarrow> Inl err
              | Inr matchedCols \<Rightarrow>
                  Inr (if matched then colIndex # matchedCols else matchedCols)))
      else examineCols targetRows valueSearchRules examineAllCols colsToExamine colIndices)"

text \<open>
  \<open>findColsByCombinedVals\<close>. The value of \<open>findMaxNumCols\<close> is overwritten by
  \<open>targetRows[0].length\<close> before it is read; on an empty table that read raises a
  TypeError.
\<close>

definition findColsByCombinedVals ::
  "(string \<Rightarrow> number) \<Rightarrow> rule list \<Rightarrow> table \<Rightarrow> error + nat list" where
  "findColsByCombinedVals Number rules targetRows =
     (let valueSearchRules = filter (\<lambda>rule. val rule \<noteq> Undefined) rules;
          indexRules = filter (\<lambda>rule. index rule \<noteq> IndexScalar Undefined) rules
      in case targetRows of
           [] \<Rightarrow> Inl TypeError
         | firstRow # otherRows \<Rightarrow>
             let numCols = length firstRow
             in case createKeepIndexChecker Number indexRules of
                  Inl err \<Rightarrow> Inl err
                | Inr indexChecker \<Rightarrow>
                    (case colsNotKept indexChecker [0..<numCols] of
                       Inl err \<Rightarrow> Inl err
                     | Inr colsToExamine \<Rightarrow>
                         let examineAllCols = (length colsToExamine = 0)
                         in examineCols targetRows valueSearchRules examineAllCols
                              colsToExamine [0..<numCols]))"

definition removeCols :: "table \<Rightarrow> nat list \<Rightarrow> table" where
  "removeCols targetRows cols =
     map (\<lambda>row'.
       map (\<lambda>i. row' ! i) (filter (\<lambda>i. indexOf (=) cols i = - 1) [0..<length row']))
     targetRows"

text \<open>
  \<open>ignoreColIf\<close>. The final \<open>parseInt\<close> over the collected indices is the identity: all
  of them are loop counters.
\<close>

definition ignoreColIf :: "(string \<Rightarrow> number) \<Rightarrow> table \<Rightarrow> rule list \<Rightarrow> error + table" where
  "ignoreColIf Number targetRows params =
     (let colIndexIgnoreRules = filter (\<lambda>e. index e \<noteq> IndexScalar Undefined) params
      in case createKeepIndexChecker Number colIndexIgnoreRules of
           Inl err \<Rightarrow> Inl err
         | Inr indexChecker \<Rightarrow>
             (case targetRows of
                [] \<Rightarrow> Inl TypeError
              | firstRow # otherRows \<Rightarrow>
                  let numCols = length firstRow
                  in case colsNotKept indexChecker [0..<numCols] of
                       Inl err \<Rightarrow> Inl err
                     | Inr byIndex \<Rightarrow>
                         let valueIndexIgnoreRules = filter (\<lambda>e. val e \<noteq> Undefined) params;
                             byVal = findColsByVal valueIndexIgnoreRules targetRows;
                             combineRules = filter (\<lambda>e. allOf e \<noteq> None) params
                         in case sequenceResults
                                   (map (\<lambda>r. findColsByCombinedVals Number (the (allOf r))
                                               targetRows) combineRules) of
                              Inl err \<Rightarrow> Inl err
                            | Inr byCombined \<Rightarrow>
                                let colIndicesToIgnore = byIndex @ byVal @ concat byCombined
                                in Inr (removeCols targetRows colIndicesToIgnore)))"

text \<open>
  The three sources of columns to drop that \<open>ignoreColIf\<close> concatenates: the columns
  the index rules exclude, the columns \<open>findColsByVal\<close> reports for the value rules, and
  the columns \<open>findColsByCombinedVals\<close> reports for the \<open>allOf\<close> groups.
\<close>

definition indexDropCols :: "(string \<Rightarrow> number) \<Rightarrow> table \<Rightarrow> rule list \<Rightarrow> error + nat list" where
  "indexDropCols Number targetRows params =
     (case createKeepIndexChecker Number
             (filter (\<lambda>e. index e \<noteq> IndexScalar Undefined) params) of
        Inl err \<Rightarrow> Inl err
      | Inr indexChecker \<Rightarrow>
          (case targetRows of
             [] \<Rightarrow> Inl TypeError
           | firstRow # otherRows \<Rightarrow> colsNotKept indexChecker [0..<length firstRow]))"

definition valueDropCols :: "table \<Rightarrow> rule list \<Rightarrow> nat list" where
  "valueDropCols targetRows params =
     findColsByVal (filter (\<lambda>e. val e \<noteq> Undefined) params) targetRows"

definition combinedDropCols ::
  "(string \<Rightarrow> number) \<Rightarrow> table \<Rightarrow> rule list \<Rightarrow> error + nat list" where
  "combinedDropCols Number targetRows params =
     (case sequenceResults
             (map (\<lambda>r. findColsByCombinedVals Number (the (allOf r)) targetRows)
                (filter (\<lambda>e. allOf e \<noteq> None) params)) of
        Inl err \<Rightarrow> Inl err
      | Inr byCombined \<Rightarrow> Inr (concat byCombined))"

section \<open>The refine orchestrator\<close>

text \<open>
  An operation names a strategy and carries its parameter, modelled as the rule list
  the two filters take. A strategy raises (\<open>Inl\<close>)
  or calls one of its two callbacks, \<open>onSuccess\<close> with the new table or \<open>onError\<close> with
  a message (a non-empty string). \<open>ignoreRowIf\<close> and \<open>ignoreColIf\<close> only ever call
  \<open>onSuccess\<close>. The strategies of \<open>str_ops\<close> and \<open>structure_ops\<close>, whose parameters
  have other shapes, are parameters of the model. The
  table of strategies is an object literal with these five keys; the properties it
  inherits from \<open>Object.prototype\<close> are not modelled.
\<close>

record operation_desc =
  operation :: string
  param :: "rule list"

datatype callback = CallsOnSuccess table | CallsOnError string

type_synonym strategy = "table \<Rightarrow> rule list \<Rightarrow> error + callback"

definition viaOnSuccess :: "error + table \<Rightarrow> error + callback" where
  "viaOnSuccess r = (case r of Inl err \<Rightarrow> Inl err | Inr retVal \<Rightarrow> Inr (CallsOnSuccess retVal))"

definition refineStrategies ::
  "(string \<Rightarrow> number) \<Rightarrow> strategy \<Rightarrow> strategy \<Rightarrow> strategy \<Rightarrow> string \<Rightarrow> strategy option" where
  "refineStrategies Number str_replace str_interpretStr structure_transpose name =
     (if name = ''ignoreRowIf''
        then Some (\<lambda>targetRows params. viaOnSuccess (ignoreRowIf Number targetRows params))
      else if name = ''ignoreColIf''
        then Some (\<lambda>targetRows params. viaOnSuccess (ignoreColIf Number targetRows params))
      else if name = ''replace'' then Some str_replace
      else if name = ''interpretStr'' then Some str_interpretStr
      else if name = ''transpose'' then Some structure_transpose
      else None)"

text \<open>
  The names every object inherits from \<open>Object.prototype\<close>; a lookup of one of them in
  the table of strategies does not give \<open>undefined\<close>, and what follows is outside this
  model.
\<close>

definition objectPrototypeNames :: "string list" where
  "objectPrototypeNames =
     [''constructor'', ''hasOwnProperty'', ''isPrototypeOf'', ''propertyIsEnumerable'',
      ''toLocaleString'', ''toString'', ''valueOf'', ''__proto__'', ''__defineGetter__'',
      ''__defineSetter__'', ''__lookupGetter__'', ''__lookupSetter__'']"

text \<open>\<open>executeOperation\<close>: calling the \<open>undefined\<close> strategy raises a TypeError.\<close>

definition executeOperation ::
  "(string \<Rightarrow> strategy option) \<Rightarrow> operation_desc \<Rightarrow> table \<Rightarrow> error + callback" where
  "executeOperation strategies op targetRows =
     (case strategies (operation op) of
        None \<Rightarrow> Inl TypeError
      | Some strategy \<Rightarrow> strategy targetRows (param op))"

text \<open>
  \<open>async.reduce\<close> of the async library, for an iterator that calls back before it
  returns, as every strategy does: the items are run in order on the running value; an
  error passed to the callback ends the reduction with that error; an exception raised
  by the iterator leaves the reduction, since the library catches nothing.
\<close>

fun reduce :: "operation_desc list \<Rightarrow> table \<Rightarrow> (table \<Rightarrow> operation_desc \<Rightarrow> error + callback) \<Rightarrow>
    error + callback" where
  "reduce [] memo iterator = Inr (CallsOnSuccess memo)"
| "reduce (x # xs) memo iterator =
     (case iterator memo x of
        Inl err \<Rightarrow> Inl err
      | Inr (CallsOnError msg) \<Rightarrow> Inr (CallsOnError msg)
      | Inr (CallsOnSuccess v) \<Rightarrow> reduce xs v iterator)"

datatype operation_input = Single operation_desc | Many "operation_desc list"

text \<open>
  What a call of \<open>refine\<close> does to its caller: it calls \<open>onSuccess\<close>, or it calls the
  error handler (the supplied one, or the default one, which throws an \<open>Error\<close> with the
  message), or an exception leaves it.
\<close>

datatype outcome =
  OnSuccess table | OnError string | DefaultHandlerThrows string | Throws error

text \<open>\<open>refine\<close>; \<open>onErrorGiven\<close> tells whether the caller passed an error handler.\<close>

definition refine ::
  "(string \<Rightarrow> strategy option) \<Rightarrow> operation_input \<Rightarrow> table \<Rightarrow> bool \<Rightarrow> outcome" where
  "refine strategies operation' targetRows onErrorGiven =
     (let operations = (case operation' of Single op \<Rightarrow> [op] | Many ops \<Rightarrow> ops);
          executeOperationClosure =
            (\<lambda>targetRows' op. executeOperation strategies op targetRows')
      in case reduce operations targetRows executeOperationClosure of
           Inl err \<Rightarrow> Throws err
         | Inr (CallsOnError msg) \<Rightarrow>
             if onErrorGiven then OnError msg else DefaultHandlerThrows msg
         | Inr (CallsOnSuccess newTargetRows) \<Rightarrow> OnSuccess newTargetRows)"

section \<open>Facts about the helpers\<close>

lemma indexOfFrom_absent:
  "0 \<le> i \<Longrightarrow> (indexOfFrom eq xs x i = - 1) = (\<not> (\<exists>y \<in> set xs. eq y x))"
  by (induction xs arbitrary: i) auto

lemma indexOf_absent: "(indexOf eq xs x = - 1) = (\<not> (\<exists>y \<in> set xs. eq y x))"
  by (simp add: indexOf_def indexOfFrom_absent)

lemma clauseResults_reports:
  "clauseResults (foldl reportShouldKeep c rs) = clauseResults c @ rs"
  by (induction rs arbitrary: c) (simp_all add: reportShouldKeep_def)

lemma combineWithAnd_reports:
  "combineWithAnd (foldl reportShouldKeep c rs) = combineWithAnd c"
  by (induction rs arbitrary: c) (simp_all add: reportShouldKeep_def)

lemma all_true_iff: "(\<forall>r \<in> set rs. r) = (False \<notin> set rs)"
  by (induction rs) auto

lemma some_true_iff: "(\<exists>r \<in> set rs. r) = (True \<in> set rs)"
  by (induction rs) auto

lemma shouldKeep_reports:
  "shouldKeep (foldl reportShouldKeep (newRuleCombiner cwa) rs) =
     (if cwa then False \<notin> set rs else True \<in> set rs)"
  by (simp add: shouldKeep_def clauseResults_reports combineWithAnd_reports
      newRuleCombiner_def indexOf_absent all_true_iff some_true_iff)

subsection \<open>Errors and votes\<close>

lemma error_is_TypeError: "(e::error) = TypeError"
  by (cases e) simp

lemma error_eq: "((a::error) = b) = True"
  by (cases a; cases b) simp

lemma Inl_TypeError: "isl (v :: error + 'a) \<Longrightarrow> v = Inl TypeError"
  by (cases v) (simp_all add: error_is_TypeError)

lemma reportAll_votes:
  "reportAll fs row' i c =
     (if \<forall>f \<in> set fs. \<not> isl (f row' i)
      then Inr (foldl reportShouldKeep c (map (\<lambda>f. projr (f row' i)) fs))
      else Inl TypeError)"
proof (induction fs arbitrary: c)
  case Nil
  show ?case by simp
next
  case (Cons f fs)
  show ?case
  proof (cases "f row' i")
    case (Inl e)
    then show ?thesis by (simp add: error_is_TypeError)
  next
    case (Inr b)
    then show ?thesis by (simp add: Cons.IH)
  qed
qed

lemma sequenceResults_eq:
  "sequenceResults rs =
     (if \<forall>r \<in> set rs. \<not> isl r then Inr (map projr rs) else Inl TypeError)"
proof (induction rs)
  case Nil
  show ?case by simp
next
  case (Cons r rs)
  show ?case
  proof (cases r)
    case (Inl e)
    then show ?thesis by (simp add: error_is_TypeError)
  next
    case (Inr x)
    then show ?thesis by (simp add: Cons.IH)
  qed
qed

lemma Inr_mem_projr:
  "\<forall>v \<in> set vs. \<not> isl v \<Longrightarrow> (Inr b \<in> set vs) = (b \<in> set (map projr vs))"
  by (induction vs) (auto simp: sum.collapse(2))

lemma ignoreRowsByRule_Nil: "ignoreRowsByRule N [] a b = Inr (a, b)"
  by simp

lemma createKeepIndexChecker_fails:
  "createKeepIndexChecker N rules = Inl e \<Longrightarrow>
     filter (\<lambda>e. index e \<noteq> IndexScalar Undefined) rules \<noteq> []"
  by (auto simp: createKeepIndexChecker_def Let_def)

lemma rowDecision_votes:
  "rowDecision N rules cw row' i =
     (if \<forall>v \<in> set (clauseVotes N rules row' i). \<not> isl v
      then Inr (if cw then Inr False \<notin> set (clauseVotes N rules row' i)
                else Inr True \<in> set (clauseVotes N rules row' i))
      else Inl TypeError)"
proof -
  define IR where "IR = filter (\<lambda>e. index e \<noteq> IndexScalar Undefined) rules"
  define VF :: "keep_func list" where
    "VF = map (\<lambda>f row' rowIndex. Inr (f row' rowIndex))
            (createKeepRowValFuncs (filter (\<lambda>e. val e \<noteq> Undefined) rules))"
  define CR where "CR = filter (\<lambda>e. allOf e \<noteq> None) rules"
  define builds where "builds = map (\<lambda>g. createRowKeepFunc N (the (allOf g)) False) CR"
  define votes where "votes = clauseVotes N rules row' i"
  define law where "law = (\<lambda>bs. if cw then False \<notin> set bs else True \<in> set bs)"
  have gv: "groupVotes N rules row' i =
      map (\<lambda>b. case b of Inl e \<Rightarrow> Inl e | Inr f \<Rightarrow> f row' i) builds"
    by (simp add: groupVotes_def rowDecision_def builds_def CR_def)
  have vv: "valueVotes rules row' i = map (\<lambda>f. f row' i) VF"
    by (simp add: valueVotes_def VF_def)
  have iv: "indexVotes N rules i =
      (if IR = [] then []
       else [case createKeepIndexChecker N rules of Inl e \<Rightarrow> Inl e | Inr chk \<Rightarrow> chk i])"
    by (simp add: indexVotes_def indexVote_def IR_def)
  have votes: "votes = indexVotes N rules i @ map (\<lambda>f. f row' i) VF
      @ map (\<lambda>b. case b of Inl e \<Rightarrow> Inl e | Inr f \<Rightarrow> f row' i) builds"
    by (simp add: votes_def clauseVotes_def gv vv)
  have unfolded: "createRowKeepFunc N rules cw =
      (case createKeepIndexChecker N rules of
         Inl err \<Rightarrow> Inl err
       | Inr chk \<Rightarrow>
          (case sequenceResults builds of
             Inl err \<Rightarrow> Inl err
           | Inr gs \<Rightarrow>
               if IR = [] then
                 Inr (\<lambda>row' rowIndex.
                   case reportAll (VF @ gs) row' rowIndex (newRuleCombiner cw) of
                     Inl err \<Rightarrow> Inl err
                   | Inr rc \<Rightarrow> Inr (shouldKeep rc))
               else if VF @ gs = [] then Inr (\<lambda>row' rowIndex. chk rowIndex)
               else
                 Inr (\<lambda>row' rowIndex.
                   case chk rowIndex of
                     Inl err \<Rightarrow> Inl err
                   | Inr r \<Rightarrow>
                       (case reportAll (VF @ gs) row' rowIndex
                               (reportShouldKeep (newRuleCombiner cw) r) of
                          Inl err \<Rightarrow> Inl err
                        | Inr rc \<Rightarrow> Inr (shouldKeep rc)))))"
    unfolding IR_def VF_def CR_def builds_def
    by (subst createRowKeepFunc.simps) (simp add: Let_def split: sum.splits)
  have keep_law: "shouldKeep (foldl reportShouldKeep (newRuleCombiner cw) bs) = law bs" for bs
    by (simp add: shouldKeep_reports law_def)
  have keep_law': "shouldKeep (foldl reportShouldKeep (reportShouldKeep (newRuleCombiner cw) b) bs)
      = law (b # bs)" for b bs
    using keep_law [of "b # bs"] by simp
  have goal: "rowDecision N rules cw row' i =
     (if \<forall>v \<in> set votes. \<not> isl v then Inr (law (map projr votes)) else Inl TypeError)"
  proof (cases "createKeepIndexChecker N rules")
    case (Inl e)
    then have "IR \<noteq> []"
      unfolding IR_def by (rule createKeepIndexChecker_fails)
    then have "Inl e \<in> set votes"
      by (simp add: votes iv Inl)
    then have "\<not> (\<forall>v \<in> set votes. \<not> isl v)"
      by force
    then show ?thesis
      by (simp add: rowDecision_def unfolded Inl error_is_TypeError)
  next
    case (Inr chk)
    show ?thesis
    proof (cases "\<forall>b \<in> set builds. \<not> isl b")
      case False
      then obtain b where b: "b \<in> set builds" "isl b"
        by blast
      have "isl (case b of Inl e \<Rightarrow> Inl e | Inr f \<Rightarrow> f row' i)"
        using b(2) by (cases b) simp_all
      moreover have "(case b of Inl e \<Rightarrow> Inl e | Inr f \<Rightarrow> f row' i) \<in> set votes"
        using b(1) by (simp add: votes)
      ultimately have "\<not> (\<forall>v \<in> set votes. \<not> isl v)"
        by blast
      moreover have "sequenceResults builds = Inl TypeError"
        using False by (simp add: sequenceResults_eq)
      ultimately show ?thesis
        by (simp add: rowDecision_def unfolded Inr)
    next
      case True
      define gs where "gs = map projr builds"
      have seq: "sequenceResults builds = Inr gs"
        using True by (simp add: sequenceResults_eq gs_def)
      have "map (\<lambda>b. case b of Inl e \<Rightarrow> Inl e | Inr f \<Rightarrow> f row' i) builds
          = map (\<lambda>g. g row' i) gs"
        using True by (auto simp: gs_def split: sum.splits)
      then have votes': "votes = indexVotes N rules i @ map (\<lambda>f. f row' i) (VF @ gs)"
        by (simp add: votes)
      define fs where "fs = VF @ gs"
      have allok: "(\<forall>v \<in> set votes. \<not> isl v) =
          ((\<forall>v \<in> set (indexVotes N rules i). \<not> isl v) \<and> (\<forall>f \<in> set fs. \<not> isl (f row' i)))"
        unfolding votes' fs_def [symmetric] by auto
      have projs: "map projr votes =
          map projr (indexVotes N rules i) @ map (\<lambda>f. projr (f row' i)) fs"
        unfolding votes' fs_def [symmetric] by (simp add: comp_def)
      have built: "createRowKeepFunc N rules cw =
          (if IR = [] then
             Inr (\<lambda>row' rowIndex.
               case reportAll fs row' rowIndex (newRuleCombiner cw) of
                 Inl err \<Rightarrow> Inl err
               | Inr rc \<Rightarrow> Inr (shouldKeep rc))
           else if fs = [] then Inr (\<lambda>row' rowIndex. chk rowIndex)
           else
             Inr (\<lambda>row' rowIndex.
               case chk rowIndex of
                 Inl err \<Rightarrow> Inl err
               | Inr r \<Rightarrow>
                   (case reportAll fs row' rowIndex
                           (reportShouldKeep (newRuleCombiner cw) r) of
                      Inl err \<Rightarrow> Inl err
                    | Inr rc \<Rightarrow> Inr (shouldKeep rc))))"
        unfolding fs_def by (simp add: unfolded Inr seq)
      show ?thesis
      proof (cases "IR = []")
        case True
        then show ?thesis
          by (simp add: rowDecision_def built reportAll_votes allok projs iv keep_law)
      next
        case nonempty: False
        show ?thesis
        proof (cases "chk i")
          case (Inl e)
          then show ?thesis
            using nonempty
            by (simp add: rowDecision_def built allok iv Inr error_is_TypeError)
        next
          case chk: (Inr r)
          show ?thesis
          proof (cases "fs = []")
            case True
            then show ?thesis
              using nonempty
              by (simp add: rowDecision_def built allok projs iv Inr chk law_def)
          next
            case False
            then show ?thesis
              using nonempty
              by (simp add: rowDecision_def built allok projs iv Inr chk reportAll_votes
                  keep_law')
          qed
        qed
      qed
    qed
  qed
  have "law (map projr votes) =
      (if cw then Inr False \<notin> set votes else Inr True \<in> set votes)"
    if "\<forall>v \<in> set votes. \<not> isl v"
    using that by (simp add: law_def Inr_mem_projr)
  then show ?thesis
    using goal unfolding votes_def by auto
qed

subsection \<open>Value rules and the loop over the rows\<close>

lemma scanAllColumns_eq:
  "scanAllColumns row' v cs = (\<not> (\<exists>c \<in> set cs. strict_eq (row' ! c) v))"
  by (induction cs) auto

lemma scanTargetCols_eq:
  "scanTargetCols row' v cs = (\<not> (\<exists>c \<in> set cs. c < length row' \<and> strict_eq (row' ! c) v))"
  by (induction cs) auto

lemma valueVotes_eq:
  "valueVotes rules row' i =
     map (\<lambda>r. Inr (\<not> valueRuleMatches r row')) (filter (\<lambda>e. val e \<noteq> Undefined) rules)"
  by (auto simp: valueVotes_def createKeepRowValFuncs_def valueRuleMatches_def selectedCols_def
      Let_def scanAllColumns_eq scanTargetCols_eq list_ex_iff split: index_list.splits)

lemma keepRows_eq:
  "keepRows f rows k =
     (if \<forall>(j, r) \<in> set (zip [k..<k + length rows] rows). \<not> isl (f r j)
      then Inr (map snd (filter (\<lambda>(j, r). f r j = Inr True) (zip [k..<k + length rows] rows)))
      else Inl TypeError)"
proof (induction rows arbitrary: k)
  case Nil
  show ?case by simp
next
  case (Cons r rows)
  have upt: "[k..<k + length (r # rows)] = k # [Suc k..<Suc k + length rows]"
    by (simp add: upt_rec)
  show ?case
  proof (cases "f r k")
    case (Inl e)
    then show ?thesis
      unfolding upt by (simp add: error_is_TypeError)
  next
    case (Inr b)
    then show ?thesis
      unfolding upt by (simp add: Cons.IH [of "Suc k"])
  qed
qed

lemma keepRows_total:
  assumes "\<And>r j. f r j = Inr (g r)"
  shows "keepRows f rows k = Inr (filter g rows)"
  using assms by (induction rows arbitrary: k) simp_all

subsection \<open>Well-formed rule lists never raise\<close>

lemma runEvaluators_Some:
  "list_all (\<lambda>ev. ev \<noteq> None) evs \<Longrightarrow> \<not> isl (runEvaluators evs x p)"
  by (induction evs x p rule: runEvaluators.induct) simp_all

lemma ignoreRowsByRule_wellFormed:
  assumes "list_all wellFormedRule es" and "list_all (\<lambda>ev. ev \<noteq> None) evs"
  shows "\<exists>rows' evs'. ignoreRowsByRule N es rows evs = Inr (rows', evs')
           \<and> list_all (\<lambda>ev. ev \<noteq> None) evs'"
  using assms
proof (induction es arbitrary: rows evs)
  case Nil
  then show ?case by simp
next
  case (Cons e es)
  obtain i c r v a where e: "e = Rule i c r v a"
    by (cases e)
  from Cons.prems have wf: "wellFormedIndex i" and rest: "list_all wellFormedRule es"
    by (simp_all add: e)
  show ?case
  proof (cases i)
    case (IndexArray idxs)
    then show ?thesis
      using Cons.IH [OF rest Cons.prems(2)] by (simp add: e)
  next
    case (IndexScalar x)
    show ?thesis
    proof (cases x)
      case (Str s)
      with wf IndexScalar obtain strategy where
        "3 \<le> length s" and "equalityStrategies (take 2 s) = Some strategy"
        by auto
      then have "createEqualityEvaluator N s = Inr (Some (strategy (N (drop 2 s))))"
        by (simp add: createEqualityEvaluator_def)
      moreover have "list_all (\<lambda>ev. ev \<noteq> None) (evs @ [Some (strategy (N (drop 2 s)))])"
        using Cons.prems(2) by simp
      ultimately show ?thesis
        using Cons.IH [OF rest, of "evs @ [Some (strategy (N (drop 2 s)))]" rows]
        by (simp add: e IndexScalar Str)
    qed (use Cons.IH [OF rest Cons.prems(2)] in \<open>simp_all add: e IndexScalar\<close>)
  qed
qed

lemma wellFormed_filter:
  "list_all wellFormedRule rules \<Longrightarrow> list_all wellFormedRule (filter P rules)"
  by (induction rules) simp_all

lemma createKeepIndexChecker_wellFormed:
  assumes "list_all wellFormedRule rules"
  shows "\<exists>chk. createKeepIndexChecker N rules = Inr chk \<and> (\<forall>i. \<not> isl (chk i))"
proof -
  let ?IR = "filter (\<lambda>e. index e \<noteq> IndexScalar Undefined) rules"
  have "list_all wellFormedRule ?IR"
    using assms by (rule wellFormed_filter)
  then obtain rows' evs' where
    built: "ignoreRowsByRule N ?IR [] [] = Inr (rows', evs')"
    and evs: "list_all (\<lambda>ev. ev \<noteq> None) evs'"
    using ignoreRowsByRule_wellFormed [of ?IR "[]" N "[]"] by auto
  have "\<not> isl (runEvaluators evs' x True)" for x
    using evs by (rule runEvaluators_Some)
  then have "\<exists>b. runEvaluators evs' x True = Inr b" for x
    by (cases "runEvaluators evs' x True") (auto simp: isl_def)
  then have "\<not> isl (case runEvaluators evs' x True of Inl err \<Rightarrow> Inl err
      | Inr p \<Rightarrow> Inr (f p))" for x and f :: "bool \<Rightarrow> bool"
    by (metis isl_def sum.simps(4) sum.simps(6))
  then show ?thesis
    by (simp add: createKeepIndexChecker_def Let_def built)
qed

lemma rowDecision_wellFormed:
  "list_all wellFormedRule rules \<Longrightarrow> \<not> isl (rowDecision N rules cw row' i)"
proof (induction N rules cw rule: createRowKeepFunc.induct)
  case (1 N rules cw)
  obtain chk where chk: "createKeepIndexChecker N rules = Inr chk" "\<And>i. \<not> isl (chk i)"
    using createKeepIndexChecker_wellFormed [OF "1.prems"] by blast
  have groups: "\<not> isl v" if "v \<in> set (groupVotes N rules row' i)" for v
  proof -
    from that obtain g where g: "g \<in> set (filter (\<lambda>e. allOf e \<noteq> None) rules)"
      and v: "v = rowDecision N (the (allOf g)) False row' i"
      by (auto simp: groupVotes_def)
    from g have "g \<in> set rules" and some: "allOf g \<noteq> None"
      by auto
    with "1.prems" have "wellFormedRule g"
      by (simp add: list_all_iff)
    with some have "list_all wellFormedRule (the (allOf g))"
      by (cases g) auto
    then show ?thesis
      unfolding v using "1.IH" [OF refl refl chk(1) refl refl refl g] by blast
  qed
  have "\<not> isl v" if "v \<in> set (indexVotes N rules i)" for v
    using that chk(2) [of i] by (simp add: indexVotes_def indexVote_def chk(1) split: if_splits)
  moreover have "\<not> isl v" if "v \<in> set (valueVotes rules row' i)" for v
    using that by (auto simp: valueVotes_def)
  ultimately have "\<not> isl v" if "v \<in> set (clauseVotes N rules row' i)" for v
    using that groups by (auto simp: clauseVotes_def)
  then show ?case
    by (simp add: rowDecision_votes)
qed

subsection \<open>Decisions of the row filter\<close>

lemma ignoreRowIf_by_decision:
  assumes "\<And>row' i. rowDecision N rules True row' i = Inr (g row')"
  shows "ignoreRowIf N rows rules = Inr (filter g rows)"
proof (cases "createRowKeepFunc N rules True")
  case (Inl e)
  with assms [of "[]" 0] show ?thesis
    by (simp add: rowDecision_def)
next
  case (Inr f)
  with assms have "f row' i = Inr (g row')" for row' i
    by (simp add: rowDecision_def)
  then have "keepRows f rows 0 = Inr (filter g rows)"
    by (rule keepRows_total)
  then show ?thesis
    by (simp add: ignoreRowIf_def Inr)
qed

lemma ignoreRowIf_returns:
  assumes "ignoreRowIf N rows rules = Inr out"
  shows "out = map snd (filter (\<lambda>(j, r). rowDecision N rules True r j = Inr True)
                   (zip [0..<length rows] rows))"
proof (cases "createRowKeepFunc N rules True")
  case (Inl e)
  with assms show ?thesis
    by (simp add: ignoreRowIf_def)
next
  case (Inr f)
  with assms have "keepRows f rows 0 = Inr out"
    by (simp add: ignoreRowIf_def)
  then have "out = map snd (filter (\<lambda>(j, r). f r j = Inr True) (zip [0..<length rows] rows))"
    by (simp add: keepRows_eq split: if_splits)
  then show ?thesis
    by (simp add: rowDecision_def Inr)
qed

lemma value_rules_votes:
  assumes "\<forall>r \<in> set rules. index r = IndexScalar Undefined \<and> allOf r = None \<and> val r \<noteq> Undefined"
  shows "clauseVotes N rules row' i = map (\<lambda>r. Inr (\<not> valueRuleMatches r row')) rules"
proof -
  have "filter (\<lambda>e. index e \<noteq> IndexScalar Undefined) rules = []"
    and "filter (\<lambda>e. allOf e \<noteq> None) rules = []"
    and "filter (\<lambda>e. val e \<noteq> Undefined) rules = rules"
    using assms by (simp_all add: filter_empty_conv filter_id_conv)
  then show ?thesis
    by (simp add: clauseVotes_def indexVotes_def groupVotes_def valueVotes_eq)
qed

lemma value_rules_decision:
  assumes "\<forall>r \<in> set rules. index r = IndexScalar Undefined \<and> allOf r = None \<and> val r \<noteq> Undefined"
  shows "rowDecision N rules cw row' i =
     Inr (if cw then \<not> (\<exists>r \<in> set rules. valueRuleMatches r row')
          else \<not> (\<forall>r \<in> set rules. valueRuleMatches r row'))"
  unfolding rowDecision_votes value_rules_votes [OF assms]
  by (auto simp: image_iff)

lemma clauseVotes_Nil: "clauseVotes N [] row' i = []"
  by (simp add: clauseVotes_def indexVotes_def valueVotes_def groupVotes_def
      createKeepRowValFuncs_def)

lemma empty_group_decision: "rowDecision N [] False row' i = Inr False"
  by (subst rowDecision_votes) (simp add: clauseVotes_Nil)

lemma empty_list_decision: "rowDecision N [] True row' i = Inr True"
  by (subst rowDecision_votes) (simp add: clauseVotes_Nil)

lemma votes_ok_wellFormed:
  assumes "list_all wellFormedRule rules"
  shows "\<forall>v \<in> set (clauseVotes N rules row' i). \<not> isl v"
proof (rule ccontr)
  assume "\<not> ?thesis"
  then have "rowDecision N rules True row' i = Inl TypeError"
    by (subst rowDecision_votes) simp
  moreover have "\<not> isl (rowDecision N rules True row' i)"
    using assms by (rule rowDecision_wellFormed)
  ultimately show False
    by simp
qed

lemma group_vote_mem:
  assumes "g \<in> set rules" and "allOf g = Some sub"
  shows "rowDecision N sub False row' i \<in> set (clauseVotes N rules row' i)"
proof -
  have "g \<in> set (filter (\<lambda>e. allOf e \<noteq> None) rules)"
    using assms by simp
  then have "rowDecision N (the (allOf g)) False row' i \<in> set (groupVotes N rules row' i)"
    unfolding groupVotes_def set_map by (rule imageI)
  then show ?thesis
    using assms(2) by (simp add: clauseVotes_def)
qed

lemma decision_false_rows:
  assumes "\<And>row' i. rowDecision N rules True row' i = Inr False \<or> isl (rowDecision N rules True row' i)"
    and "ignoreRowIf N rows rules = Inr out"
  shows "out = []"
proof -
  have "out = map snd (filter (\<lambda>(j, r). rowDecision N rules True r j = Inr True)
                   (zip [0..<length rows] rows))"
    using assms(2) by (rule ignoreRowIf_returns)
  moreover have "rowDecision N rules True r j \<noteq> Inr True" for r j
    using assms(1) [of r j] by auto
  ultimately show ?thesis
    by simp
qed

subsection \<open>Removing columns\<close>

lemma map_nth_filter_upt:
  "map (\<lambda>i. xs ! i) (filter P [0..<length xs]) = nths xs {i. P i}"
proof (induction xs rule: rev_induct)
  case Nil
  show ?case by simp
next
  case (snoc x xs)
  have "map (\<lambda>i. (xs @ [x]) ! i) (filter P [0..<length xs])
      = map (\<lambda>i. xs ! i) (filter P [0..<length xs])"
    by (rule map_cong) (auto simp: nth_append)
  then show ?case
    by (simp add: snoc.IH nths_append)
qed

lemma removeCols_nths:
  "removeCols rows cols = map (\<lambda>row'. nths row' (- set cols)) rows"
proof -
  have "{i. indexOf (=) cols i = - 1} = - set cols"
    by (auto simp: indexOf_absent)
  then show ?thesis
    by (simp add: removeCols_def map_nth_filter_upt)
qed

lemma length_nths_compl:
  "length (nths xs (- D)) = length xs - card {c \<in> D. c < length xs}"
proof -
  have fin: "finite {c \<in> D. c < length xs}"
    by simp
  have disj: "{i. i < length xs \<and> i \<in> - D} \<inter> {c \<in> D. c < length xs} = {}"
    by auto
  have un: "{i. i < length xs \<and> i \<in> - D} \<union> {c \<in> D. c < length xs} = {..<length xs}"
    by auto
  have "card {i. i < length xs \<and> i \<in> - D} + card {c \<in> D. c < length xs} = length xs"
    using card_Un_disjoint [OF _ fin disj] un by simp
  then show ?thesis
    by (simp add: length_nths)
qed

lemma ignoreColIf_sources:
  assumes "ignoreColIf N rows params = Inr out"
  shows "\<exists>byIndex byCombined.
           indexDropCols N rows params = Inr byIndex
         \<and> combinedDropCols N rows params = Inr byCombined
         \<and> out = removeCols rows (byIndex @ valueDropCols rows params @ byCombined)"
  using assms
  by (auto simp: ignoreColIf_def indexDropCols_def combinedDropCols_def valueDropCols_def
      Let_def split: sum.splits list.splits)

text \<open>
  Whenever \<open>ignoreColIf\<close> returns a table, the columns its three sources collect are
  combined as a set union and exactly the positions of that set are omitted from every
  row: the result depends only on the set of collected indices, and a row loses as many
  cells as it has positions in the set.
\<close>

lemma ignoreColIf_drop_sets:
  assumes "ignoreColIf N rows params = Inr out"
  shows "\<exists>byIndex byCombined.
           indexDropCols N rows params = Inr byIndex
         \<and> combinedDropCols N rows params = Inr byCombined
         \<and> out = map (\<lambda>row'. nths row'
                 (- (set byIndex \<union> set (valueDropCols rows params) \<union> set byCombined))) rows
         \<and> length out = length rows
         \<and> (\<forall>k < length rows. length (out ! k) = length (rows ! k)
               - card {c \<in> set byIndex \<union> set (valueDropCols rows params) \<union> set byCombined.
                        c < length (rows ! k)})
         \<and> (\<forall>cols cols'. set cols = set cols' \<longrightarrow> removeCols rows cols = removeCols rows cols')"
proof -
  from ignoreColIf_sources [OF assms] obtain byIndex byCombined where
    src: "indexDropCols N rows params = Inr byIndex"
      "combinedDropCols N rows params = Inr byCombined"
    and out: "out = removeCols rows (byIndex @ valueDropCols rows params @ byCombined)"
    by blast
  let ?D = "set byIndex \<union> set (valueDropCols rows params) \<union> set byCombined"
  have out_nths: "out = map (\<lambda>row'. nths row' (- ?D)) rows"
    by (simp add: out removeCols_nths Un_assoc)
  have len: "\<forall>k < length rows. length (out ! k) = length (rows ! k)
      - card {c \<in> ?D. c < length (rows ! k)}"
  proof (intro allI impI)
    fix k
    assume "k < length rows"
    then have "out ! k = nths (rows ! k) (- ?D)"
      by (simp only: out_nths nth_map)
    then show "length (out ! k) = length (rows ! k) - card {c \<in> ?D. c < length (rows ! k)}"
      by (simp only: length_nths_compl)
  qed
  have size: "length out = length rows"
    by (simp only: out_nths length_map)
  have same: "\<forall>cols cols'. set cols = set cols' \<longrightarrow> removeCols rows cols = removeCols rows cols'"
    by (simp add: removeCols_nths)
  from src out_nths size len same show ?thesis
    by blast
qed

lemma ignoreColIf_drop_sets_example:
  "ignoreColIf decimalNumber [[Str ''0'', Str ''a'', Str ''b''], [Str ''1'', Str ''c'']]
     [indexRule (IndexScalar (Num (Fin 0))), rowValRule (InputIndex 0) (Str ''0''),
      allOfRule [rowValRule InputAny (Str ''b'')]]
   = Inr [[Str ''a''], [Str ''c'']]
   \<and> indexDropCols decimalNumber [[Str ''0'', Str ''a'', Str ''b''], [Str ''1'', Str ''c'']]
     [indexRule (IndexScalar (Num (Fin 0))), rowValRule (InputIndex 0) (Str ''0''),
      allOfRule [rowValRule InputAny (Str ''b'')]] = Inr [0]
   \<and> valueDropCols [[Str ''0'', Str ''a'', Str ''b''], [Str ''1'', Str ''c'']]
     [indexRule (IndexScalar (Num (Fin 0))), rowValRule (InputIndex 0) (Str ''0''),
      allOfRule [rowValRule InputAny (Str ''b'')]] = [0]
   \<and> combinedDropCols decimalNumber [[Str ''0'', Str ''a'', Str ''b''], [Str ''1'', Str ''c'']]
     [indexRule (IndexScalar (Num (Fin 0))), rowValRule (InputIndex 0) (Str ''0''),
      allOfRule [rowValRule InputAny (Str ''b'')]] = Inr [2]
   \<and> [[Str ''a''], [Str ''c'']]
       = map (\<lambda>row'. nths row' (- (set [0] \<union> set [0] \<union> set [2])))
           [[Str ''0'', Str ''a'', Str ''b''], [Str ''1'', Str ''c'']]"
proof -
  let ?rows = "[[Str ''0'', Str ''a'', Str ''b''], [Str ''1'', Str ''c'']]"
  let ?params = "[indexRule (IndexScalar (Num (Fin 0))), rowValRule (InputIndex 0) (Str ''0''),
      allOfRule [rowValRule InputAny (Str ''b'')]]"
  have run: "ignoreColIf decimalNumber ?rows ?params = Inr [[Str ''a''], [Str ''c'']]"
    by code_simp
  have src: "indexDropCols decimalNumber ?rows ?params = Inr [0]"
    "valueDropCols ?rows ?params = [0]"
    "combinedDropCols decimalNumber ?rows ?params = Inr [2]"
    by code_simp+
  from ignoreColIf_drop_sets [OF run] have "[[Str ''a''], [Str ''c'']]
       = map (\<lambda>row'. nths row' (- (set [0] \<union> set [0] \<union> set [2]))) ?rows"
    unfolding src by blast
  with run src show ?thesis
    by blast
qed

subsection \<open>Out-of-range selectors at the top level\<close>

lemma scanTargetCols_skips_out_of_range:
  "scanTargetCols row' v cs = scanTargetCols row' v (filter (\<lambda>c. c < length row') cs)"
  by (auto simp: scanTargetCols_eq)

lemma findColsByVal_skips_out_of_range:
  "findColsByVal [rowValRule (InputArray rs) v] rows =
   findColsByVal [rowValRule (InputArray (filter (\<lambda>i. i < length rows) rs)) v] rows"
  by (simp add: findColsByVal_def rowValRule_def prepareListOfIndices_def checkRowsByVal_def)

lemma checkRowsByVal_set:
  "set (checkRowsByVal r rows) =
     {c. \<exists>targetRow \<in> set rows. c < length targetRow \<and> strict_eq (targetRow ! c) (val r)}"
  by (auto simp: checkRowsByVal_def)

lemma findColsByVal_unfold:
  "findColsByVal rules rows =
     concat (map (\<lambda>r. case prepareListOfIndices (row r) of
        ANY_OPT \<Rightarrow> checkRowsByVal r rows
      | Indices rs \<Rightarrow> checkRowsByVal r (map (\<lambda>i. rows ! i) (filter (\<lambda>i. i < length rows) rs)))
      rules)"
  unfolding findColsByVal_def Let_def by (rule refl)

lemma findColsByVal_set:
  "set (findColsByVal rules rows) =
     {c. \<exists>r \<in> set rules. \<exists>i < length rows.
           (case prepareListOfIndices (row r) of ANY_OPT \<Rightarrow> True | Indices rs \<Rightarrow> i \<in> set rs)
           \<and> c < length (rows ! i) \<and> strict_eq (rows ! i ! c) (val r)}"
  (is "?L = ?R")
proof (intro set_eqI iffI)
  fix c
  assume "c \<in> ?L"
  then obtain r where r: "r \<in> set rules"
    and c: "c \<in> set (case prepareListOfIndices (row r) of
        ANY_OPT \<Rightarrow> checkRowsByVal r rows
      | Indices rs \<Rightarrow> checkRowsByVal r (map (\<lambda>i. rows ! i) (filter (\<lambda>i. i < length rows) rs)))"
    by (auto simp: findColsByVal_unfold)
  show "c \<in> ?R"
  proof (cases "prepareListOfIndices (row r)")
    case ANY_OPT
    with c obtain targetRow where "targetRow \<in> set rows" "c < length targetRow"
      "strict_eq (targetRow ! c) (val r)"
      by (auto simp: checkRowsByVal_set)
    then obtain i where "i < length rows" "c < length (rows ! i)"
      "strict_eq (rows ! i ! c) (val r)"
      by (auto simp: in_set_conv_nth)
    then have "\<exists>i < length rows.
        (case prepareListOfIndices (row r) of ANY_OPT \<Rightarrow> True | Indices rs \<Rightarrow> i \<in> set rs)
        \<and> c < length (rows ! i) \<and> strict_eq (rows ! i ! c) (val r)"
      using ANY_OPT by auto
    with r show ?thesis
      by blast
  next
    case (Indices rs)
    with c obtain i where "i \<in> set rs" "i < length rows" "c < length (rows ! i)"
      "strict_eq (rows ! i ! c) (val r)"
      by (auto simp: checkRowsByVal_set)
    then have "\<exists>i < length rows.
        (case prepareListOfIndices (row r) of ANY_OPT \<Rightarrow> True | Indices rs \<Rightarrow> i \<in> set rs)
        \<and> c < length (rows ! i) \<and> strict_eq (rows ! i ! c) (val r)"
      using Indices by auto
    with r show ?thesis
      by blast
  qed
next
  fix c
  assume "c \<in> ?R"
  then obtain r i where r: "r \<in> set rules" and i: "i < length rows"
    and sel: "case prepareListOfIndices (row r) of ANY_OPT \<Rightarrow> True | Indices rs \<Rightarrow> i \<in> set rs"
    and c: "c < length (rows ! i)" "strict_eq (rows ! i ! c) (val r)"
    by auto
  have "c \<in> set (case prepareListOfIndices (row r) of
        ANY_OPT \<Rightarrow> checkRowsByVal r rows
      | Indices rs \<Rightarrow> checkRowsByVal r (map (\<lambda>i. rows ! i) (filter (\<lambda>i. i < length rows) rs)))"
  proof (cases "prepareListOfIndices (row r)")
    case ANY_OPT
    then show ?thesis
      using i c by (auto simp: checkRowsByVal_set)
  next
    case (Indices rs)
    then show ?thesis
      using i c sel by (auto simp: checkRowsByVal_set)
  qed
  then show "c \<in> ?L"
    using r by (auto simp: findColsByVal_unfold)
qed

lemma colsNotKept_always_keep: "colsNotKept (\<lambda>rowIndex. Inr True) cols = Inr []"
  by (induction cols) simp_all

lemma ignoreColIf_value_rules:
  assumes "\<forall>r \<in> set params. index r = IndexScalar Undefined \<and> allOf r = None \<and> val r \<noteq> Undefined"
    and "rows \<noteq> []"
  shows "ignoreColIf N rows params = Inr (removeCols rows (findColsByVal params rows))"
proof -
  have "filter (\<lambda>e. index e \<noteq> IndexScalar Undefined) params = []"
    and "filter (\<lambda>e. allOf e \<noteq> None) params = []"
    and "filter (\<lambda>e. val e \<noteq> Undefined) params = params"
    using assms(1) by (simp_all add: filter_empty_conv filter_id_conv)
  moreover obtain firstRow otherRows where "rows = firstRow # otherRows"
    using assms(2) by (cases rows) auto
  ultimately show ?thesis
    by (simp add: ignoreColIf_def createKeepIndexChecker_def colsNotKept_always_keep)
qed

lemma ignoreColIf_empty_table: "ignoreColIf N [] params = Inl TypeError"
  by (simp add: ignoreColIf_def Let_def error_eq split: sum.splits)

subsection \<open>Malformed equality expressions\<close>

lemma bad_operator_raises:
  assumes "3 \<le> length s" and "equalityStrategies (take 2 s) = None"
  shows "createKeepIndexChecker N [indexRule (IndexScalar (Str s))] = Inl TypeError"
  using assms
  by (simp add: createKeepIndexChecker_def indexRule_def createEqualityEvaluator_def)

lemma short_expression_raises:
  assumes "length s < 3"
  shows "createKeepIndexChecker N [indexRule (IndexScalar (Str s))] =
           Inr (\<lambda>rowIndex. Inl TypeError)"
  using assms
  by (simp add: createKeepIndexChecker_def indexRule_def createEqualityEvaluator_def)

lemma not_equal_NaN_excludes_all:
  assumes "N operand = NaN" and "operand \<noteq> []"
  shows "createKeepIndexChecker N [indexRule (IndexScalar (Str (''!='' @ operand)))] =
           Inr (\<lambda>rowIndex. Inr False)"
  using assms
  by (simp add: createKeepIndexChecker_def indexRule_def createEqualityEvaluator_def
      equalityStrategies_def indexOf_def)

subsection \<open>The reduction over the operations\<close>

lemma reduce_append:
  "reduce (xs @ ys) memo iterator =
     (case reduce xs memo iterator of
        Inl err \<Rightarrow> Inl err
      | Inr (CallsOnError msg) \<Rightarrow> Inr (CallsOnError msg)
      | Inr (CallsOnSuccess v) \<Rightarrow> reduce ys v iterator)"
  by (induction xs arbitrary: memo) (simp_all split: sum.splits callback.splits)

section \<open>Claims\<close>

text \<open>
  C1. Whatever sequence of clause results is reported to a RuleCombiner, \<open>shouldKeep\<close>
  answers, in AND mode, true exactly when no reported result is false and, in OR mode,
  true exactly when some reported result is true; in both modes the answer is the same
  for every permutation of the reported sequence.
\<close>

theorem RuleCombiner_law:
  "shouldKeep (foldl reportShouldKeep (newRuleCombiner True) rs) = (False \<notin> set rs)
   \<and> shouldKeep (foldl reportShouldKeep (newRuleCombiner False) rs) = (True \<in> set rs)
   \<and> (\<forall>rs'. mset rs' = mset rs \<longrightarrow>
        shouldKeep (foldl reportShouldKeep (newRuleCombiner cwa) rs') =
        shouldKeep (foldl reportShouldKeep (newRuleCombiner cwa) rs))"
proof (intro conjI allI impI)
  show "shouldKeep (foldl reportShouldKeep (newRuleCombiner True) rs) = (False \<notin> set rs)"
    by (simp add: shouldKeep_reports)
  show "shouldKeep (foldl reportShouldKeep (newRuleCombiner False) rs) = (True \<in> set rs)"
    by (simp add: shouldKeep_reports)
next
  fix rs' :: "bool list"
  assume "mset rs' = mset rs"
  then have "set rs' = set rs"
    by (rule mset_eq_setD)
  then show "shouldKeep (foldl reportShouldKeep (newRuleCombiner cwa) rs') =
        shouldKeep (foldl reportShouldKeep (newRuleCombiner cwa) rs)"
    by (simp only: shouldKeep_reports)
qed

theorem RuleCombiner_law_witness:
  "shouldKeep (foldl reportShouldKeep (newRuleCombiner True) [True, False, True]) = False
   \<and> shouldKeep (foldl reportShouldKeep (newRuleCombiner False) [True, False, True]) = True
   \<and> mset [False, True, True] = mset [True, False, True]
   \<and> shouldKeep (foldl reportShouldKeep (newRuleCombiner False) [False, True, True]) =
       shouldKeep (foldl reportShouldKeep (newRuleCombiner False) [True, False, True])"
proof -
  note law = RuleCombiner_law [of "[True, False, True]" False]
  have perm: "mset [False, True, True] = mset [True, False, True]"
    by simp
  from law have "shouldKeep (foldl reportShouldKeep (newRuleCombiner False) [False, True, True]) =
       shouldKeep (foldl reportShouldKeep (newRuleCombiner False) [True, False, True])"
    using perm by blast
  moreover from law
  have "shouldKeep (foldl reportShouldKeep (newRuleCombiner True) [True, False, True]) = False"
    by simp
  moreover from law
  have "shouldKeep (foldl reportShouldKeep (newRuleCombiner False) [True, False, True]) = True"
    by simp
  ultimately show ?thesis
    using perm by blast
qed

text \<open>
  C2. One predicate voting keep does not suffice for a row to be kept by a top-level
  rule list: with the rules \<open>[{col:0, val:A}, {col:0, val:B}]\<close> the row \<open>[A, x]\<close> receives the votes
  remove and keep, and is removed.
\<close>

theorem top_level_or_law_counterexample:
  "clauseVotes decimalNumber
     [colValRule (InputIndex 0) (Str ''A''), colValRule (InputIndex 0) (Str ''B'')]
     [Str ''A'', Str ''x''] 0 = [Inr False, Inr True]
   \<and> rowDecision decimalNumber
       [colValRule (InputIndex 0) (Str ''A''), colValRule (InputIndex 0) (Str ''B'')] True
       [Str ''A'', Str ''x''] 0 = Inr False
   \<and> ignoreRowIf decimalNumber [[Str ''A'', Str ''x'']]
       [colValRule (InputIndex 0) (Str ''A''), colValRule (InputIndex 0) (Str ''B'')] = Inr []"
  by code_simp

text \<open>
  C2, as amended. The top-level rule list is combined in AND mode
  (\<open>createRowKeepFunc(params, true)\<close>): when no clause raises, the row is kept exactly when
  none of the predicates (the index predicate, if the list has a rule with an \<open>index\<close>
  field, every value predicate and every nested-group predicate) voted false, so a single
  predicate voting false removes the row; when a clause raises, so does the decision. No
  clause raises when the equality expressions of the list are well formed. The rows
  \<open>ignoreRowIf\<close> returns are those whose decision is keep, in their order.
\<close>

theorem top_level_and_law:
  "rowDecision N rules True row' i =
     (if \<forall>v \<in> set (clauseVotes N rules row' i). \<not> isl v
      then Inr (Inr False \<notin> set (clauseVotes N rules row' i))
      else Inl TypeError)
   \<and> (list_all wellFormedRule rules \<longrightarrow> (\<forall>v \<in> set (clauseVotes N rules row' i). \<not> isl v))
   \<and> (\<forall>out. ignoreRowIf N rows rules = Inr out \<longrightarrow>
         out = map snd (filter (\<lambda>(j, r). rowDecision N rules True r j = Inr True)
                 (zip [0..<length rows] rows)))"
proof (intro conjI allI impI)
  show "rowDecision N rules True row' i =
     (if \<forall>v \<in> set (clauseVotes N rules row' i). \<not> isl v
      then Inr (Inr False \<notin> set (clauseVotes N rules row' i))
      else Inl TypeError)"
    by (subst rowDecision_votes) simp
  show "\<forall>v \<in> set (clauseVotes N rules row' i). \<not> isl v" if "list_all wellFormedRule rules"
    using that by (rule votes_ok_wellFormed)
  show "out = map snd (filter (\<lambda>(j, r). rowDecision N rules True r j = Inr True)
                 (zip [0..<length rows] rows))"
    if "ignoreRowIf N rows rules = Inr out" for out
    using that by (rule ignoreRowIf_returns)
qed

theorem top_level_and_law_witness:
  "rowDecision decimalNumber
     [colValRule (InputIndex 0) (Str ''A''), colValRule (InputIndex 0) (Str ''B'')] True
     [Str ''A'', Str ''x''] 0 = Inr False
   \<and> rowDecision decimalNumber
     [colValRule (InputIndex 0) (Str ''A''), colValRule (InputIndex 0) (Str ''B'')] True
     [Str ''C'', Str ''x''] 0 = Inr True"
proof -
  let ?rules = "[colValRule (InputIndex 0) (Str ''A''), colValRule (InputIndex 0) (Str ''B'')]"
  have votes: "clauseVotes decimalNumber ?rules [Str ''A'', Str ''x''] 0 = [Inr False, Inr True]"
    "clauseVotes decimalNumber ?rules [Str ''C'', Str ''x''] 0 = [Inr True, Inr True]"
    by code_simp+
  from top_level_and_law [of decimalNumber ?rules "[Str ''A'', Str ''x'']" 0 "[]"]
    top_level_and_law [of decimalNumber ?rules "[Str ''C'', Str ''x'']" 0 "[]"]
  show ?thesis
    by (simp add: votes)
qed

text \<open>
  C3. For every top-level rule list made of value rules only (whether or not the rows
  they match are disjoint), \<open>ignoreRowIf\<close> raises nothing and outputs exactly the rows
  that match none of the rules, in their original order and unchanged; a row that matches
  at least one rule is removed. In particular, on the table \<open>[[A,x],[B,x],[C,x]]\<close> with the
  rules \<open>[{col:0, val:A}]\<close> the output is \<open>[[B,x],[C,x]]\<close>.
\<close>

theorem ignoreRowIf_value_rules:
  assumes "\<forall>r \<in> set rules. index r = IndexScalar Undefined \<and> allOf r = None \<and> val r \<noteq> Undefined"
  shows "ignoreRowIf N rows rules =
           Inr (filter (\<lambda>row'. \<not> (\<exists>r \<in> set rules. valueRuleMatches r row')) rows)
         \<and> ignoreRowIf N [[Str ''A'', Str ''x''], [Str ''B'', Str ''x''], [Str ''C'', Str ''x'']]
             [colValRule (InputIndex 0) (Str ''A'')]
           = Inr [[Str ''B'', Str ''x''], [Str ''C'', Str ''x'']]"
proof
  show "ignoreRowIf N rows rules =
      Inr (filter (\<lambda>row'. \<not> (\<exists>r \<in> set rules. valueRuleMatches r row')) rows)"
    by (rule ignoreRowIf_by_decision) (simp add: value_rules_decision [OF assms])
next
  let ?rules = "[colValRule (InputIndex 0) (Str ''A'')]"
  have "\<forall>r \<in> set ?rules. index r = IndexScalar Undefined \<and> allOf r = None \<and> val r \<noteq> Undefined"
    by (simp add: colValRule_def)
  then have "rowDecision N ?rules True row' i =
      Inr (\<not> (\<exists>r \<in> set ?rules. valueRuleMatches r row'))" for row' i
    by (simp add: value_rules_decision)
  then have "ignoreRowIf N rows' ?rules =
      Inr (filter (\<lambda>row'. \<not> (\<exists>r \<in> set ?rules. valueRuleMatches r row')) rows')" for rows'
    by (rule ignoreRowIf_by_decision)
  then show "ignoreRowIf N [[Str ''A'', Str ''x''], [Str ''B'', Str ''x''], [Str ''C'', Str ''x'']]
      ?rules = Inr [[Str ''B'', Str ''x''], [Str ''C'', Str ''x'']]"
    by (simp add: valueRuleMatches_def selectedCols_def prepareListOfIndices_def colValRule_def)
qed

theorem ignoreRowIf_value_rules_witness:
  "ignoreRowIf decimalNumber
     [[Str ''A'', Str ''x''], [Str ''B'', Str ''x''], [Str ''C'', Str ''x'']]
     [colValRule (InputIndex 0) (Str ''A''), colValRule InputAny (Str ''C'')]
   = Inr [[Str ''B'', Str ''x'']]"
proof -
  let ?rules = "[colValRule (InputIndex 0) (Str ''A''), colValRule InputAny (Str ''C'')]"
  have "\<forall>r \<in> set ?rules. index r = IndexScalar Undefined \<and> allOf r = None \<and> val r \<noteq> Undefined"
    by (simp add: colValRule_def)
  from ignoreRowIf_value_rules [OF this, of decimalNumber
      "[[Str ''A'', Str ''x''], [Str ''B'', Str ''x''], [Str ''C'', Str ''x'']]"]
  show ?thesis
    by (simp add: valueRuleMatches_def selectedCols_def prepareListOfIndices_def colValRule_def)
qed

text \<open>
  C4. A nested \<open>allOf\<close> group made of value rules votes to remove a row only when every
  one of its sub-rules matches the row; when at least one sub-rule does not match, the
  group votes to keep. This is the vote the group contributes to every rule list that
  contains it, and a rule list holding just the group removes exactly the rows that all
  sub-rules match.
\<close>

theorem allOf_group_and_law:
  assumes "\<forall>r \<in> set g. index r = IndexScalar Undefined \<and> allOf r = None \<and> val r \<noteq> Undefined"
  shows "rowDecision N g False row' i = Inr (\<not> (\<forall>r \<in> set g. valueRuleMatches r row'))
     \<and> (\<forall>rules. allOfRule g \<in> set rules \<longrightarrow>
          Inr (\<not> (\<forall>r \<in> set g. valueRuleMatches r row')) \<in> set (clauseVotes N rules row' i))
     \<and> ignoreRowIf N rows [allOfRule g] =
          Inr (filter (\<lambda>row'. \<not> (\<forall>r \<in> set g. valueRuleMatches r row')) rows)"
proof (intro conjI allI impI)
  show vote: "rowDecision N g False row' i = Inr (\<not> (\<forall>r \<in> set g. valueRuleMatches r row'))"
    for row' i
    by (simp add: value_rules_decision [OF assms])
  show "Inr (\<not> (\<forall>r \<in> set g. valueRuleMatches r row')) \<in> set (clauseVotes N rules row' i)"
    if "allOfRule g \<in> set rules" for rules
    using group_vote_mem [OF that, of g N row' i] by (simp add: allOfRule_def vote)
  have "clauseVotes N [allOfRule g] row' i = [Inr (\<not> (\<forall>r \<in> set g. valueRuleMatches r row'))]"
    for row' i
    by (simp add: clauseVotes_def indexVotes_def valueVotes_eq groupVotes_def allOfRule_def vote)
  then have "rowDecision N [allOfRule g] True row' i =
      Inr (\<not> (\<forall>r \<in> set g. valueRuleMatches r row'))" for row' i
    by (subst rowDecision_votes) simp
  then show "ignoreRowIf N rows [allOfRule g] =
      Inr (filter (\<lambda>row'. \<not> (\<forall>r \<in> set g. valueRuleMatches r row')) rows)"
    by (rule ignoreRowIf_by_decision)
qed

theorem allOf_group_and_law_witness:
  "ignoreRowIf decimalNumber
     [[Str ''notTargetVal1'', Str ''dont touch me'', Str ''targetVal2''],
      [Str ''targetVal1'', Str ''throw this row out'', Str ''targetVal2''],
      [Str ''notTargetVal2'', Str ''dont touch me either'', Str ''notTargetVal3'']]
     [allOfRule [colValRule (InputIndex 0) (Str ''targetVal1''),
                 colValRule (InputIndex 2) (Str ''targetVal2'')]]
   = Inr [[Str ''notTargetVal1'', Str ''dont touch me'', Str ''targetVal2''],
          [Str ''notTargetVal2'', Str ''dont touch me either'', Str ''notTargetVal3'']]"
proof -
  let ?g = "[colValRule (InputIndex 0) (Str ''targetVal1''),
             colValRule (InputIndex 2) (Str ''targetVal2'')]"
  have "\<forall>r \<in> set ?g. index r = IndexScalar Undefined \<and> allOf r = None \<and> val r \<noteq> Undefined"
    by (simp add: colValRule_def)
  from allOf_group_and_law [OF this, of decimalNumber "[]" 0
      "[[Str ''notTargetVal1'', Str ''dont touch me'', Str ''targetVal2''],
        [Str ''targetVal1'', Str ''throw this row out'', Str ''targetVal2''],
        [Str ''notTargetVal2'', Str ''dont touch me either'', Str ''notTargetVal3'']]"]
  show ?thesis
    by (simp add: valueRuleMatches_def selectedCols_def prepareListOfIndices_def colValRule_def)
qed

text \<open>
  C5. Malformed equality expressions do not degrade to "never matches". An expression
  whose first two characters are no operator of the table (\<open>=>3\<close>) raises a TypeError while
  the index checker is built; an expression shorter than three characters (\<open>>3\<close>) gives a
  \<open>null\<close> evaluator, and applying the checker to a row index raises a TypeError; and the
  expression \<open>!=abc\<close>, whose operand converts to \<open>NaN\<close>, matches every index, so that the
  rule excludes every row.
\<close>

theorem malformed_index_raises:
  "createKeepIndexChecker N [indexRule (IndexScalar (Str ''=>3''))] = Inl TypeError
   \<and> ignoreRowIf N [[Str ''a'']] [indexRule (IndexScalar (Str ''=>3''))] = Inl TypeError
   \<and> ignoreRowIf N [[Str ''a'']] [indexRule (IndexScalar (Str ''>3''))] = Inl TypeError
   \<and> ignoreRowIf decimalNumber [[Str ''a'']] [indexRule (IndexScalar (Str ''!=abc''))] = Inr []"
proof (intro conjI)
  show build: "createKeepIndexChecker N [indexRule (IndexScalar (Str ''=>3''))] = Inl TypeError"
    by (simp add: createKeepIndexChecker_def indexRule_def createEqualityEvaluator_def
        equalityStrategies_def)
  have "createRowKeepFunc N [indexRule (IndexScalar (Str ''=>3''))] True = Inl TypeError"
    by (subst createRowKeepFunc.simps) (simp add: build)
  then show "ignoreRowIf N [[Str ''a'']] [indexRule (IndexScalar (Str ''=>3''))] = Inl TypeError"
    by (simp add: ignoreRowIf_def)
  have "createKeepIndexChecker N [indexRule (IndexScalar (Str ''>3''))] =
      Inr (\<lambda>rowIndex. Inl TypeError)"
    by (simp add: createKeepIndexChecker_def indexRule_def createEqualityEvaluator_def)
  then have "createRowKeepFunc N [indexRule (IndexScalar (Str ''>3''))] True =
      Inr (\<lambda>row' rowIndex. Inl TypeError)"
    by (subst createRowKeepFunc.simps)
      (simp add: indexRule_def createKeepRowValFuncs_def)
  then show "ignoreRowIf N [[Str ''a'']] [indexRule (IndexScalar (Str ''>3''))] = Inl TypeError"
    by (simp add: ignoreRowIf_def)
  show "ignoreRowIf decimalNumber [[Str ''a'']] [indexRule (IndexScalar (Str ''!=abc''))] = Inr []"
    by code_simp
qed

text \<open>
  C6. A group with an index rule does not decide by its index predicate alone: for the
  group \<open>[{index:0}, {col:0, val:A}]\<close> and the row \<open>[B, x]\<close> at index 0 the
  index predicate votes remove, yet the group votes keep and the row stays.
\<close>

theorem group_index_precedence_counterexample:
  "indexVote decimalNumber
     [indexRule (IndexScalar (Num (Fin 0))), colValRule (InputIndex 0) (Str ''A'')] 0 = Inr False
   \<and> rowDecision decimalNumber
       [indexRule (IndexScalar (Num (Fin 0))), colValRule (InputIndex 0) (Str ''A'')] False
       [Str ''B'', Str ''x''] 0 = Inr True
   \<and> ignoreRowIf decimalNumber [[Str ''B'', Str ''x'']]
       [allOfRule [indexRule (IndexScalar (Num (Fin 0))), colValRule (InputIndex 0) (Str ''A'')]]
       = Inr [[Str ''B'', Str ''x'']]"
  by code_simp

text \<open>
  C6, as amended. A group with at least one index rule is combined in OR mode over the
  vote of its index predicate, the votes of its value predicates and the votes of its
  nested groups: when no clause raises, it votes keep exactly when one of them votes keep,
  that is, it votes remove only when the index predicate and every value and nested
  predicate vote remove. The value predicates are not ignored: when no clause raises, the
  decision coincides with the vote of the index predicate exactly when the index predicate
  votes keep or no value predicate and no nested group votes keep. In particular it
  coincides whenever the group has neither a value rule nor a nested group.
\<close>

theorem group_with_index_law:
  assumes "\<exists>e \<in> set g. index e \<noteq> IndexScalar Undefined"
  shows "rowDecision N g False row' i =
     (if \<forall>v \<in> set (clauseVotes N g row' i). \<not> isl v
      then Inr (indexVote N g i = Inr True
                \<or> Inr True \<in> set (valueVotes g row' i)
                \<or> Inr True \<in> set (groupVotes N g row' i))
      else Inl TypeError)
   \<and> ((\<forall>v \<in> set (clauseVotes N g row' i). \<not> isl v) \<longrightarrow>
        (rowDecision N g False row' i = indexVote N g i) =
        (indexVote N g i = Inr True
         \<or> (Inr True \<notin> set (valueVotes g row' i) \<and> Inr True \<notin> set (groupVotes N g row' i))))
   \<and> ((\<forall>e \<in> set g. val e = Undefined \<and> allOf e = None) \<longrightarrow>
        rowDecision N g False row' i = indexVote N g i)"
proof (intro conjI impI)
  have nonempty: "filter (\<lambda>e. index e \<noteq> IndexScalar Undefined) g \<noteq> []"
    using assms by (simp add: filter_empty_conv)
  then have votes: "clauseVotes N g row' i =
      indexVote N g i # valueVotes g row' i @ groupVotes N g row' i"
    by (simp add: clauseVotes_def indexVotes_def)
  show law: "rowDecision N g False row' i =
     (if \<forall>v \<in> set (clauseVotes N g row' i). \<not> isl v
      then Inr (indexVote N g i = Inr True
                \<or> Inr True \<in> set (valueVotes g row' i)
                \<or> Inr True \<in> set (groupVotes N g row' i))
      else Inl TypeError)"
    by (subst rowDecision_votes) (auto simp: votes)
  show "(rowDecision N g False row' i = indexVote N g i) =
        (indexVote N g i = Inr True
         \<or> (Inr True \<notin> set (valueVotes g row' i) \<and> Inr True \<notin> set (groupVotes N g row' i)))"
    if ok: "\<forall>v \<in> set (clauseVotes N g row' i). \<not> isl v"
  proof -
    from ok have "\<not> isl (indexVote N g i)"
      by (simp add: votes)
    then obtain b where b: "indexVote N g i = Inr b"
      by (cases "indexVote N g i") auto
    have "rowDecision N g False row' i =
        Inr (b \<or> Inr True \<in> set (valueVotes g row' i) \<or> Inr True \<in> set (groupVotes N g row' i))"
      using ok by (simp add: law b)
    then show ?thesis
      by (auto simp: b)
  qed
  show "rowDecision N g False row' i = indexVote N g i"
    if "\<forall>e \<in> set g. val e = Undefined \<and> allOf e = None"
  proof -
    have "filter (\<lambda>e. val e \<noteq> Undefined) g = []" and "filter (\<lambda>e. allOf e \<noteq> None) g = []"
      using that by (simp_all add: filter_empty_conv)
    then have "clauseVotes N g row' i = [indexVote N g i]"
      by (simp add: votes valueVotes_eq groupVotes_def)
    then show ?thesis
      by (subst rowDecision_votes) (cases "indexVote N g i"; simp add: error_eq)
  qed
qed

theorem group_with_index_law_witness:
  "rowDecision decimalNumber
     [indexRule (IndexScalar (Num (Fin 0))), colValRule (InputIndex 0) (Str ''A'')] False
     [Str ''A'', Str ''x''] 0 = Inr False
   \<and> rowDecision decimalNumber
     [indexRule (IndexScalar (Num (Fin 0))), colValRule (InputIndex 0) (Str ''A'')] False
     [Str ''B'', Str ''x''] 0 = Inr True
   \<and> rowDecision decimalNumber [indexRule (IndexScalar (Num (Fin 0)))] False
     [Str ''B'', Str ''x''] 0 = Inr False"
proof -
  let ?g = "[indexRule (IndexScalar (Num (Fin 0))), colValRule (InputIndex 0) (Str ''A'')]"
  let ?h = "[indexRule (IndexScalar (Num (Fin 0)))]"
  have has: "\<exists>e \<in> set ?g. index e \<noteq> IndexScalar Undefined"
    "\<exists>e \<in> set ?h. index e \<noteq> IndexScalar Undefined"
    by (simp_all add: indexRule_def)
  have only: "\<forall>e \<in> set ?h. val e = Undefined \<and> allOf e = None"
    by (simp add: indexRule_def)
  have votes: "clauseVotes decimalNumber ?g [Str ''A'', Str ''x''] 0 = [Inr False, Inr False]"
    "clauseVotes decimalNumber ?g [Str ''B'', Str ''x''] 0 = [Inr False, Inr True]"
    "indexVote decimalNumber ?g 0 = Inr False"
    "valueVotes ?g [Str ''A'', Str ''x''] 0 = [Inr False]"
    "valueVotes ?g [Str ''B'', Str ''x''] 0 = [Inr True]"
    "groupVotes decimalNumber ?g [Str ''A'', Str ''x''] 0 = []"
    "groupVotes decimalNumber ?g [Str ''B'', Str ''x''] 0 = []"
    "indexVote decimalNumber ?h 0 = Inr False"
    by code_simp+
  have "rowDecision decimalNumber ?g False [Str ''A'', Str ''x''] 0 = Inr False"
    using group_with_index_law [OF has(1), of decimalNumber "[Str ''A'', Str ''x'']" 0,
        THEN conjunct1]
    by (simp add: votes)
  moreover have "rowDecision decimalNumber ?g False [Str ''B'', Str ''x''] 0 = Inr True"
    using group_with_index_law [OF has(1), of decimalNumber "[Str ''B'', Str ''x'']" 0,
        THEN conjunct1]
    by (simp add: votes)
  moreover have "rowDecision decimalNumber ?h False [Str ''B'', Str ''x''] 0 = Inr False"
    using group_with_index_law [OF has(2), of decimalNumber "[Str ''B'', Str ''x'']" 0,
        THEN conjunct2, THEN conjunct2] only
    by (simp add: votes)
  ultimately show ?thesis
    by simp
qed

text \<open>
  C7. A value rule inside an \<open>allOf\<close> group of \<open>ignoreColIf\<close> whose \<open>row\<close> selector names a
  row beyond the table raises a TypeError: \<open>findColsByCombinedVals\<close> reads the missing row,
  where \<open>findColsByVal\<close> filters the selector first, so that the same rule at the top level
  is skipped and the table is returned unchanged.
\<close>

theorem allOf_out_of_range_row_raises:
  "ignoreColIf N [[Str ''a'', Str ''b'']] [allOfRule [rowValRule (InputIndex 5) (Str ''a'')]]
     = Inl TypeError
   \<and> ignoreColIf N [[Str ''a'', Str ''b'']] [rowValRule (InputIndex 5) (Str ''a'')]
     = Inr [[Str ''a'', Str ''b'']]"
  by code_simp

text \<open>
  C8. The columns named by the rules are not all dropped: \<open>ignoreColIf\<close> and
  \<open>findColsByCombinedVals\<close> examine the column indices below the length of the first
  row only. On the table \<open>[[a], [b, c]]\<close> the index rule \<open>{index: 1}\<close>, alone or together
  with the group \<open>{allOf: [{row: 1, val: c}]}\<close> that names the same column, removes nothing,
  although the column exists in the second row; the value rule \<open>{row: 1, val: c}\<close> at the
  top level, which \<open>findColsByVal\<close> scans to the length of each row, does remove it, and
  so does the index rule when the longer row comes first.
\<close>

theorem ignoreColIf_short_first_row:
  "ignoreColIf N [[Str ''a''], [Str ''b'', Str ''c'']] [indexRule (IndexScalar (Num (Fin 1)))]
     = Inr [[Str ''a''], [Str ''b'', Str ''c'']]
   \<and> ignoreColIf N [[Str ''a''], [Str ''b'', Str ''c'']]
       [indexRule (IndexScalar (Num (Fin 1))), allOfRule [rowValRule (InputIndex 1) (Str ''c'')]]
     = Inr [[Str ''a''], [Str ''b'', Str ''c'']]
   \<and> ignoreColIf N [[Str ''a''], [Str ''b'', Str ''c'']] [rowValRule (InputIndex 1) (Str ''c'')]
     = Inr [[Str ''a''], [Str ''b'']]
   \<and> ignoreColIf N [[Str ''b'', Str ''c''], [Str ''a'']] [indexRule (IndexScalar (Num (Fin 1)))]
     = Inr [[Str ''b''], [Str ''a'']]"
  by code_simp

text \<open>
  C9. For every operation name that is none of the five of the strategy table (and no
  name inherited from \<open>Object.prototype\<close>), a call of \<open>refine\<close> with that operation
  alone, or with it in a list after operations that succeed, ends in a TypeError thrown
  out of \<open>refine\<close>, whether or not the caller passed an error handler: neither the error
  handler nor \<open>onSuccess\<close> is called, and the operations after it do not run.
\<close>

theorem unknown_operation_raises:
  assumes "name \<notin> {''ignoreRowIf'', ''ignoreColIf'', ''replace'', ''interpretStr'', ''transpose''}"
    and "name \<notin> set objectPrototypeNames"
  shows "refine (refineStrategies N str_replace str_interpretStr structure_transpose)
           (Single \<lparr>operation = name, param = p\<rparr>) rows onErrorGiven = Throws TypeError
       \<and> (\<forall>before t.
            reduce before rows
              (\<lambda>targetRows' op. executeOperation
                 (refineStrategies N str_replace str_interpretStr structure_transpose) op targetRows')
              = Inr (CallsOnSuccess t) \<longrightarrow>
            refine (refineStrategies N str_replace str_interpretStr structure_transpose)
              (Many (before @ \<lparr>operation = name, param = p\<rparr> # after)) rows onErrorGiven
              = Throws TypeError)"
proof -
  have unknown: "refineStrategies N str_replace str_interpretStr structure_transpose name = None"
    using assms(1) by (simp add: refineStrategies_def)
  then show ?thesis
    by (simp add: refine_def executeOperation_def reduce_append)
qed

theorem unknown_operation_raises_witness:
  "refine (refineStrategies decimalNumber (\<lambda>t p. Inr (CallsOnSuccess t))
       (\<lambda>t p. Inr (CallsOnSuccess t)) (\<lambda>t p. Inr (CallsOnSuccess t)))
     (Single \<lparr>operation = ''sortRows'', param = []\<rparr>) [[Str ''a'']] True = Throws TypeError
   \<and> refine (refineStrategies decimalNumber (\<lambda>t p. Inr (CallsOnSuccess t))
       (\<lambda>t p. Inr (CallsOnSuccess t)) (\<lambda>t p. Inr (CallsOnSuccess t)))
     (Many [\<lparr>operation = ''ignoreRowIf'', param = []\<rparr>, \<lparr>operation = ''sortRows'', param = []\<rparr>,
            \<lparr>operation = ''transpose'', param = []\<rparr>])
     [[Str ''a'']] True = Throws TypeError"
proof -
  let ?S = "refineStrategies decimalNumber (\<lambda>t p. Inr (CallsOnSuccess t))
       (\<lambda>t p. Inr (CallsOnSuccess t)) (\<lambda>t p. Inr (CallsOnSuccess t))"
  have name: "''sortRows'' \<notin> {''ignoreRowIf'', ''ignoreColIf'', ''replace'', ''interpretStr'', ''transpose''}"
    "''sortRows'' \<notin> set objectPrototypeNames"
    by (simp_all add: objectPrototypeNames_def)
  have first: "reduce [\<lparr>operation = ''ignoreRowIf'', param = []\<rparr>] [[Str ''a'']]
      (\<lambda>targetRows' op. executeOperation ?S op targetRows') = Inr (CallsOnSuccess [[Str ''a'']])"
    by code_simp
  note law = unknown_operation_raises [OF name, of decimalNumber "\<lambda>t p. Inr (CallsOnSuccess t)"
      "\<lambda>t p. Inr (CallsOnSuccess t)" "\<lambda>t p. Inr (CallsOnSuccess t)" "[]" "[[Str ''a'']]" True
      "[\<lparr>operation = ''transpose'', param = []\<rparr>]"]
  from law have "refine ?S (Single \<lparr>operation = ''sortRows'', param = []\<rparr>) [[Str ''a'']] True
      = Throws TypeError"
    by blast
  moreover from law first
  have "refine ?S (Many ([\<lparr>operation = ''ignoreRowIf'', param = []\<rparr>]
        @ \<lparr>operation = ''sortRows'', param = []\<rparr> # [\<lparr>operation = ''transpose'', param = []\<rparr>]))
      [[Str ''a'']] True = Throws TypeError"
    by blast
  ultimately show ?thesis
    by simp
qed

text \<open>
  C10. A rule list that contains an \<open>allOf\<close> group with an empty rule list removes every
  row of every table: the empty group's OR-mode combiner has received no result and
  decides not-keep, which the top-level AND-mode combiner turns into removal. When the
  equality expressions of the list are well formed nothing raises and the result is the
  empty table; in any case no row is ever returned. An empty top-level rule list keeps
  every row.
\<close>

theorem empty_allOf_removes_all:
  assumes "g \<in> set rules" and "allOf g = Some []"
  shows "(list_all wellFormedRule rules \<longrightarrow> ignoreRowIf N rows rules = Inr [])
     \<and> (\<forall>out. ignoreRowIf N rows rules = Inr out \<longrightarrow> out = [])
     \<and> rowDecision N [] False row' i = Inr False
     \<and> ignoreRowIf N rows [] = Inr rows"
proof (intro conjI allI impI)
  have mem: "Inr False \<in> set (clauseVotes N rules row' i)" for row' i
    using group_vote_mem [OF assms, of N row' i] by (simp add: empty_group_decision)
  show "ignoreRowIf N rows rules = Inr []" if wf: "list_all wellFormedRule rules"
  proof -
    have "rowDecision N rules True row' i = Inr False" for row' i
    proof -
      have "\<forall>v \<in> set (clauseVotes N rules row' i). \<not> isl v"
        using wf by (rule votes_ok_wellFormed)
      with mem [of row' i] show ?thesis
        by (subst rowDecision_votes) simp
    qed
    then have "ignoreRowIf N rows rules = Inr (filter (\<lambda>row'. False) rows)"
      by (rule ignoreRowIf_by_decision)
    then show ?thesis
      by simp
  qed
  show "out = []" if "ignoreRowIf N rows rules = Inr out" for out
  proof (rule decision_false_rows [OF _ that])
    fix row' i
    show "rowDecision N rules True row' i = Inr False \<or> isl (rowDecision N rules True row' i)"
      using mem [of row' i] by (subst (1 2) rowDecision_votes) simp
  qed
  show "rowDecision N [] False row' i = Inr False"
    by (rule empty_group_decision)
  have "ignoreRowIf N rows [] = Inr (filter (\<lambda>row'. True) rows)"
    by (rule ignoreRowIf_by_decision) (rule empty_list_decision)
  then show "ignoreRowIf N rows [] = Inr rows"
    by simp
qed

theorem empty_allOf_removes_all_witness:
  "ignoreRowIf decimalNumber [[Str ''A'', Str ''x''], [Str ''B'', Str ''x'']]
     [colValRule (InputIndex 0) (Str ''Z''), allOfRule []] = Inr []
   \<and> ignoreRowIf decimalNumber [[Str ''A'', Str ''x''], [Str ''B'', Str ''x'']] []
       = Inr [[Str ''A'', Str ''x''], [Str ''B'', Str ''x'']]"
proof -
  let ?rules = "[colValRule (InputIndex 0) (Str ''Z''), allOfRule []]"
  have "allOfRule [] \<in> set ?rules" and "allOf (allOfRule []) = Some []"
    by (simp_all add: allOfRule_def)
  moreover have "list_all wellFormedRule ?rules"
    by (simp add: colValRule_def allOfRule_def)
  ultimately show ?thesis
    using empty_allOf_removes_all [of "allOfRule []" ?rules decimalNumber
        "[[Str ''A'', Str ''x''], [Str ''B'', Str ''x'']]"]
    by blast
qed

end
